theory Spec2Isabelle
  imports
    Complex_Main
    "HOL-Library.AList"
    "HOL-Library.Char_ord"
    "HOL-Library.List_Lexorder"
    "HOL-Library.Log_Nat"
    "HOL-Library.Multiset"
    "HOL-Library.Sublist"
begin

section \<open>Student management CLI: the program and its specification\<close>

text \<open>
  The program under study is \<^verbatim>\<open>student_mngmt.py\<close>: a menu-driven tool that keeps
  student records (roll, name, marks) in \<^verbatim>\<open>students.csv\<close>.  Every operation loads
  the whole file, works on the list of rows and, when it changes something, writes the
  whole file back.

  Conventions of the embedding.
  \<^item> A Python \<^verbatim>\<open>str\<close> is a \<^typ>\<open>string\<close>; a character is the code point
    \<open>U+0000 .. U+00FF\<close> with that number, so the development covers stores and
    console input over the Latin-1 alphabet.  The character classes below
    (\<^verbatim>\<open>isspace\<close>, \<^verbatim>\<open>isdigit\<close>, \<^verbatim>\<open>lower\<close>) are Python's on that range.
  \<^item> A Python \<^verbatim>\<open>int\<close> is an \<^typ>\<open>int\<close>.  The interpreter's configurable cap on the
    number of digits converted between \<^verbatim>\<open>int\<close> and \<^verbatim>\<open>str\<close> is not modelled.
  \<^item> An exception that nothing catches is a value: the \<open>Inl\<close> branch of a sum type, or
    the last component of what an operation returns.
  \<^item> A row of the store is the dictionary \<^verbatim>\<open>csv.DictReader\<close> makes of it, whatever
    the header of the file and the number of fields of the row.
\<close>

subsection \<open>Exceptions\<close>

datatype pyerr = ValueError | CsvError | KeyError | TypeError | AttributeError

subsection \<open>Strings: the built-in methods the program calls\<close>

text \<open>\<^verbatim>\<open>str.isspace\<close> on one character: the characters \<^verbatim>\<open>str.strip()\<close> removes.\<close>

definition py_isspace :: "char \<Rightarrow> bool" where
  "py_isspace c =
     (of_char c \<in> set [9, 10, 11, 12, 13, 28, 29, 30, 31, 32, 133, 160 :: nat])"

text \<open>\<^verbatim>\<open>s.strip()\<close>: whitespace removed at both ends.\<close>

definition strip :: "string \<Rightarrow> string" where
  "strip s = rev (dropWhile py_isspace (rev (dropWhile py_isspace s)))"

text \<open>The decimal digits \<^verbatim>\<open>0 .. 9\<close>, the only ones \<^verbatim>\<open>int\<close> and \<^verbatim>\<open>float\<close> read.\<close>

definition is_decimal :: "char \<Rightarrow> bool" where
  "is_decimal c = (48 \<le> (of_char c :: nat) \<and> (of_char c :: nat) \<le> 57)"

text \<open>
  \<^verbatim>\<open>str.isdigit\<close> on one character.  Besides the decimal digits it accepts the
  superscript digits \<open>U+00B2\<close>, \<open>U+00B3\<close> and \<open>U+00B9\<close>, which \<^verbatim>\<open>int\<close> refuses.
\<close>

definition isdigit_chr :: "char \<Rightarrow> bool" where
  "isdigit_chr c = (is_decimal c \<or> of_char c \<in> set [178, 179, 185 :: nat])"

text \<open>\<^verbatim>\<open>s.isdigit()\<close>: at least one character and all of them digits.\<close>

definition isdigit :: "string \<Rightarrow> bool" where
  "isdigit s = (s \<noteq> [] \<and> list_all isdigit_chr s)"

text \<open>\<^verbatim>\<open>s.lower()\<close>: \<open>A .. Z\<close> and the Latin-1 capitals \<open>U+00C0 .. U+00DE\<close>
  (without the multiplication sign \<open>U+00D7\<close>) move up by 32.\<close>

definition lower_chr :: "char \<Rightarrow> char" where
  "lower_chr c =
     (let n = (of_char c :: nat)
      in if (65 \<le> n \<and> n \<le> 90) \<or> (192 \<le> n \<and> n \<le> 222 \<and> n \<noteq> 215)
         then char_of (n + 32) else c)"

definition lower :: "string \<Rightarrow> string" where
  "lower s = map lower_chr s"

text \<open>\<^verbatim>\<open>q in s\<close> on strings: \<open>q\<close> occurs in \<open>s\<close> as a contiguous block.\<close>

fun py_in :: "string \<Rightarrow> string \<Rightarrow> bool" where
  "py_in q [] = (q = [])"
| "py_in q (c # cs) = (prefix q (c # cs) \<or> py_in q cs)"

text \<open>\<^verbatim>\<open>"{:w}".format(s)\<close> for a string: padded with blanks on the right up to width
  \<open>w\<close>, never cut.\<close>

definition ljust :: "nat \<Rightarrow> string \<Rightarrow> string" where
  "ljust w s = s @ replicate (w - length s) (CHR '' '')"

subsection \<open>Integers: \<^verbatim>\<open>int(s)\<close> and \<^verbatim>\<open>str(n)\<close>\<close>

definition digit_val :: "char \<Rightarrow> nat" where
  "digit_val c = of_char c - 48"

definition digit_chr :: "nat \<Rightarrow> char" where
  "digit_chr d = char_of (48 + d)"

text \<open>The value of a string of decimal digits, most significant first.\<close>

definition nat_of_digits :: "string \<Rightarrow> nat" where
  "nat_of_digits ds = foldl (\<lambda>n c. 10 * n + digit_val c) 0 ds"

text \<open>
  Underscores in a numeric literal: each one must stand between two decimal digits.
  The function checks this and returns the literal without them.
\<close>

fun drop_underscores :: "char \<Rightarrow> string \<Rightarrow> string option" where
  "drop_underscores prev [] = (if prev = CHR ''_'' then None else Some [])"
| "drop_underscores prev (c # cs) =
     (if c = CHR ''_'' then
        (if is_decimal prev then drop_underscores c cs else None)
      else if prev = CHR ''_'' \<and> \<not> is_decimal c then None
      else map_option ((#) c) (drop_underscores c cs))"

text \<open>The whitespace \<^verbatim>\<open>int\<close> and \<^verbatim>\<open>float\<close> skip at both ends of their argument.\<close>

definition num_isspace :: "char \<Rightarrow> bool" where
  "num_isspace c = (of_char c \<in> set [9, 10, 11, 12, 13, 32, 133, 160 :: nat])"

definition num_strip :: "string \<Rightarrow> string" where
  "num_strip s = rev (dropWhile num_isspace (rev (dropWhile num_isspace s)))"

text \<open>An optional sign in front of a literal: the sign and the rest.\<close>

fun split_sign :: "string \<Rightarrow> bool \<times> string" where
  "split_sign [] = (False, [])"
| "split_sign (c # cs) =
     (if c = CHR ''-'' then (True, cs)
      else if c = CHR ''+'' then (False, cs)
      else (False, c # cs))"

text \<open>\<^verbatim>\<open>int(s)\<close> in base ten; \<open>None\<close> stands for \<^verbatim>\<open>ValueError\<close>.\<close>

definition py_int :: "string \<Rightarrow> int option" where
  "py_int s =
     (let (neg, body) = split_sign (num_strip s)
      in case drop_underscores (CHR ''x'') body of
           None \<Rightarrow> None
         | Some ds \<Rightarrow>
             if ds = [] \<or> \<not> list_all is_decimal ds then None
             else Some (if neg then - int (nat_of_digits ds) else int (nat_of_digits ds)))"

text \<open>\<^verbatim>\<open>str(n)\<close> for a natural number and for an integer.\<close>

fun str_nat :: "nat \<Rightarrow> string" where
  "str_nat n = (if n < 10 then [digit_chr n] else str_nat (n div 10) @ [digit_chr (n mod 10)])"

declare str_nat.simps [simp del]

definition str_int :: "int \<Rightarrow> string" where
  "str_int i = (if i < 0 then CHR ''-'' # str_nat (nat (- i)) else str_nat (nat i))"

subsection \<open>Records\<close>

text \<open>
  A record of the store is the \<^verbatim>\<open>dict\<close> that \<^verbatim>\<open>csv.DictReader\<close> builds and that the
  program reads and updates: its string keys in insertion order, each with a string or
  with \<^verbatim>\<open>None\<close>, and, when the row was longer than the header, the surplus values as
  a list under the key \<^verbatim>\<open>None\<close>.
\<close>

record pydict =
  entries :: "(string \<times> string option) list"
  surplus :: "string list option"

text \<open>\<^verbatim>\<open>d[k]\<close> for a string key.\<close>

definition getitem :: "pydict \<Rightarrow> string \<Rightarrow> pyerr + string option" where
  "getitem d k = (case map_of (entries d) k of None \<Rightarrow> Inl KeyError | Some v \<Rightarrow> Inr v)"

text \<open>\<^verbatim>\<open>d[k] = v\<close>: the value of a key that is present is replaced in place, a new key
  comes last.\<close>

definition setitem :: "pydict \<Rightarrow> string \<Rightarrow> string option \<Rightarrow> pydict" where
  "setitem d k v = d\<lparr>entries := AList.update k v (entries d)\<rparr>"

text \<open>A value inside an f-string: \<^verbatim>\<open>None\<close> prints as its name.\<close>

fun py_str :: "string option \<Rightarrow> string" where
  "py_str None = ''None''"
| "py_str (Some s) = s"

text \<open>
  The record Add builds, \<^verbatim>\<open>{"roll": ..., "name": ..., "marks": ...}\<close>, is given by
  three strings.
\<close>

record student =
  roll :: string
  name :: string
  marks :: string

definition dict_of :: "student \<Rightarrow> pydict" where
  "dict_of s =
     \<lparr>entries = [(''roll'', Some (roll s)), (''name'', Some (name s)), (''marks'', Some (marks s))],
      surplus = None\<rparr>"

definition START_ROLL :: int where
  "START_ROLL = 1001"

subsection \<open>Roll generation\<close>

text \<open>\<^verbatim>\<open>s.get("roll", "").strip()\<close>: a missing key gives the default, \<^verbatim>\<open>None\<close> has no
  \<^verbatim>\<open>strip\<close>.\<close>

definition get_roll :: "pydict \<Rightarrow> pyerr + string" where
  "get_roll s =
     (case map_of (entries s) ''roll'' of
        None \<Rightarrow> Inr (strip [])
      | Some None \<Rightarrow> Inl AttributeError
      | Some (Some r) \<Rightarrow> Inr (strip r))"

text \<open>The loop that collects \<^verbatim>\<open>numeric_rolls\<close>; \<^verbatim>\<open>int(r)\<close> may raise.\<close>

fun numeric_rolls :: "pydict list \<Rightarrow> pyerr + int list" where
  "numeric_rolls [] = Inr []"
| "numeric_rolls (s # ss) =
     (case get_roll s of
        Inl e \<Rightarrow> Inl e
      | Inr r \<Rightarrow>
          if isdigit r then
            (case py_int r of
               None \<Rightarrow> Inl ValueError
             | Some n \<Rightarrow> map_sum id ((#) n) (numeric_rolls ss))
          else numeric_rolls ss)"

text \<open>\<^verbatim>\<open>max\<close> of a non-empty list of integers.\<close>

definition max_list :: "int list \<Rightarrow> int" where
  "max_list ns = foldl max (hd ns) (tl ns)"

definition generate_roll :: "pydict list \<Rightarrow> pyerr + string" where
  "generate_roll students =
     (if students = [] then Inr (str_int START_ROLL)
      else case numeric_rolls students of
             Inl e \<Rightarrow> Inl e
           | Inr ns \<Rightarrow>
               if ns = [] then Inr (str_int (START_ROLL + int (length students)))
               else Inr (str_int (max_list ns + 1)))"

subsection \<open>Floating point: \<^verbatim>\<open>float(s)\<close> and the arithmetic on marks\<close>

text \<open>
  A \<^verbatim>\<open>float\<close> is an IEEE binary64 number: a finite value, an infinity or NaN.  A
  finite value is kept as the rational it denotes; the two zeros are one value here
  (they compare equal in Python, and the program never tells them apart except when
  it prints one).
\<close>

datatype pyfloat = Fin rat | PInf | NInf | NaN

definition pow2 :: "int \<Rightarrow> rat" where
  "pow2 e = (if 0 \<le> e then 2 ^ nat e else 1 / 2 ^ nat (- e))"

definition pow10 :: "int \<Rightarrow> rat" where
  "pow10 e = (if 0 \<le> e then 10 ^ nat e else 1 / 10 ^ nat (- e))"

text \<open>Rounding to the nearest integer, ties to the even one.\<close>

definition round_half_even :: "rat \<Rightarrow> int" where
  "round_half_even x =
     (let n = \<lfloor>x\<rfloor>; r = x - of_int n
      in if r < 1 / 2 then n else if 1 / 2 < r then n + 1
         else if even n then n else n + 1)"

text \<open>For \<open>x > 0\<close>, the exponent \<open>e\<close> with \<open>2 ^ e \<le> x < 2 ^ (e + 1)\<close>.\<close>

definition floor_log2 :: "rat \<Rightarrow> int" where
  "floor_log2 x =
     (let (n, d) = quotient_of x; e = bitlen n - bitlen d
      in if pow2 e \<le> x then e else e - 1)"

text \<open>
  The binary64 number nearest to a rational, ties to even: 53 significant bits, least
  exponent \<open>-1074\<close>, overflow to an infinity from \<open>2 ^ 1024\<close> on.
\<close>

definition round_double :: "rat \<Rightarrow> pyfloat" where
  "round_double x =
     (if x = 0 then Fin 0
      else let a = \<bar>x\<bar>;
               p = max (floor_log2 a - 52) (- 1074);
               r = of_int (round_half_even (a / pow2 p)) * pow2 p
           in if pow2 1024 \<le> r then (if x < 0 then NInf else PInf)
              else Fin (if x < 0 then - r else r))"

text \<open>Comparison and equality of floats; every comparison with NaN is false.\<close>

fun flt :: "pyfloat \<Rightarrow> pyfloat \<Rightarrow> bool" where
  "flt NaN _ = False"
| "flt _ NaN = False"
| "flt (Fin a) (Fin b) = (a < b)"
| "flt NInf NInf = False"
| "flt NInf _ = True"
| "flt _ NInf = False"
| "flt PInf _ = False"
| "flt (Fin a) PInf = True"

definition fgt :: "pyfloat \<Rightarrow> pyfloat \<Rightarrow> bool" where
  "fgt a b = flt b a"

definition feq :: "pyfloat \<Rightarrow> pyfloat \<Rightarrow> bool" where
  "feq a b = (a \<noteq> NaN \<and> a = b)"

text \<open>Addition of floats.\<close>

fun fadd :: "pyfloat \<Rightarrow> pyfloat \<Rightarrow> pyfloat" where
  "fadd NaN _ = NaN"
| "fadd _ NaN = NaN"
| "fadd (Fin a) (Fin b) = round_double (a + b)"
| "fadd PInf NInf = NaN"
| "fadd NInf PInf = NaN"
| "fadd PInf _ = PInf"
| "fadd NInf _ = NInf"
| "fadd (Fin a) PInf = PInf"
| "fadd (Fin a) NInf = NInf"

text \<open>A float divided by the length of a non-empty list.\<close>

fun fdiv_len :: "pyfloat \<Rightarrow> nat \<Rightarrow> pyfloat" where
  "fdiv_len (Fin a) n =
     (case round_double (of_int (int n)) of Fin b \<Rightarrow> round_double (a / b) | _ \<Rightarrow> Fin 0)"
| "fdiv_len x n = x"

text \<open>\<^verbatim>\<open>round(x, 2)\<close>: the exact value rounded to two decimals, ties to even, and
  then to the nearest float.\<close>

fun py_round2 :: "pyfloat \<Rightarrow> pyfloat" where
  "py_round2 (Fin a) = round_double (of_int (round_half_even (a * 100)) / 100)"
| "py_round2 x = x"

text \<open>\<^verbatim>\<open>x.is_integer()\<close> and, for such a float, \<^verbatim>\<open>int(x)\<close>.\<close>

fun is_integer :: "pyfloat \<Rightarrow> bool" where
  "is_integer (Fin a) = (snd (quotient_of a) = 1)"
| "is_integer _ = False"

fun int_of_float :: "pyfloat \<Rightarrow> int" where
  "int_of_float (Fin a) = \<lfloor>a\<rfloor>"
| "int_of_float _ = 0"

text \<open>
  The unsigned decimal literals \<^verbatim>\<open>float\<close> reads: digits with an optional point, or a
  point followed by digits, and an optional exponent.  The result is the exact value.
\<close>

definition parse_exponent :: "string \<Rightarrow> int option" where
  "parse_exponent s =
     (case s of
        [] \<Rightarrow> Some 0
      | c # t \<Rightarrow>
          if c = CHR ''e'' \<or> c = CHR ''E'' then
            (let (neg, ds) = split_sign t
             in if ds = [] \<or> \<not> list_all is_decimal ds then None
                else Some (if neg then - int (nat_of_digits ds) else int (nat_of_digits ds)))
          else None)"

definition parse_decimal :: "string \<Rightarrow> rat option" where
  "parse_decimal s =
     (let ip = takeWhile is_decimal s; r1 = dropWhile is_decimal s;
          dot = (r1 \<noteq> [] \<and> hd r1 = CHR ''.'');
          fp = (if dot then takeWhile is_decimal (tl r1) else []);
          r2 = (if dot then dropWhile is_decimal (tl r1) else r1)
      in if ip = [] \<and> fp = [] then None
         else case parse_exponent r2 of
                None \<Rightarrow> None
              | Some e \<Rightarrow>
                  Some (of_int (int (nat_of_digits (ip @ fp))) * pow10 (e - int (length fp))))"

text \<open>\<^verbatim>\<open>float(s)\<close>; \<open>None\<close> stands for \<^verbatim>\<open>ValueError\<close>.\<close>

definition py_float :: "string \<Rightarrow> pyfloat option" where
  "py_float s =
     (case drop_underscores (CHR ''x'') (num_strip s) of
        None \<Rightarrow> None
      | Some t \<Rightarrow>
          let (neg, body) = split_sign t
          in if lower body = ''inf'' \<or> lower body = ''infinity''
             then Some (if neg then NInf else PInf)
             else if lower body = ''nan'' then Some NaN
             else map_option (\<lambda>q. round_double (if neg then - q else q)) (parse_decimal body))"

text \<open>
  \<^verbatim>\<open>str(x)\<close> for a float.  The rendering of a finite value (the shortest decimal that
  reads back as the same float) is the parameter \<open>fstr\<close>; the program only uses it for
  marks that are not integral.
\<close>

fun float_str :: "(rat \<Rightarrow> string) \<Rightarrow> pyfloat \<Rightarrow> string" where
  "float_str fstr (Fin a) = fstr a"
| "float_str fstr PInf = ''inf''"
| "float_str fstr NInf = ''-inf''"
| "float_str fstr NaN = ''nan''"

text \<open>
  The \<^verbatim>\<open>try\<close> block that validates marks in \<^verbatim>\<open>add_student\<close> and in
  \<^verbatim>\<open>edit_student\<close>: \<open>None\<close> when the \<^verbatim>\<open>except\<close> branch is taken, otherwise the string
  that is stored.
\<close>

definition marks_string :: "(rat \<Rightarrow> string) \<Rightarrow> string \<Rightarrow> string option" where
  "marks_string fstr marks_input =
     (case py_float marks_input of
        None \<Rightarrow> None
      | Some m \<Rightarrow>
          if flt m (Fin 0) \<or> fgt m (Fin 100) then None
          else Some (if is_integer m then str_int (int_of_float m) else float_str fstr m))"

subsection \<open>The CSV writer\<close>

text \<open>
  \<^verbatim>\<open>csv.writer\<close> in the default dialect: delimiter comma, quote character
  \<open>"\<close>, doubled inside a quoted field, no escape character, minimal quoting, line
  terminator CR LF.
\<close>

definition CR :: char where
  "CR = CHR 0x0D"

definition LF :: char where
  "LF = CHR 0x0A"

definition DQ :: char where
  "DQ = CHR 0x22"

definition COMMA :: char where
  "COMMA = CHR '',''"

text \<open>The characters that force a field into quotes.\<close>

definition special :: "char \<Rightarrow> bool" where
  "special c = (c = COMMA \<or> c = DQ \<or> c = CR \<or> c = LF)"

text \<open>The characters of a field as they are copied: a quote character twice.\<close>

fun escape :: "string \<Rightarrow> string" where
  "escape [] = []"
| "escape (c # cs) = (if c = DQ then DQ # DQ # escape cs else c # escape cs)"

definition csv_field :: "string \<Rightarrow> string" where
  "csv_field f = (if list_ex special f then DQ # escape f @ [DQ] else f)"

fun join_fields :: "string list \<Rightarrow> string" where
  "join_fields [] = []"
| "join_fields [f] = csv_field f"
| "join_fields (f # g # fs) = csv_field f @ COMMA # join_fields (g # fs)"

text \<open>\<^verbatim>\<open>writer.writerow\<close>: a row that is one empty field is written as two quotes.\<close>

definition writerow :: "string list \<Rightarrow> string" where
  "writerow fs = (if fs = [[]] then [DQ, DQ] else join_fields fs) @ [CR, LF]"

definition FIELDNAMES :: "string list" where
  "FIELDNAMES = [''roll'', ''name'', ''marks'']"

text \<open>\<^verbatim>\<open>DictWriter.writerow\<close> on a record: its values in the order of the field names.\<close>

definition row_of :: "student \<Rightarrow> string list" where
  "row_of s = [roll s, name s, marks s]"

subsection \<open>Reading a text file line by line\<close>

text \<open>
  A file opened with \<^verbatim>\<open>newline=""\<close> yields its lines with their terminators, and a
  line ends after LF, after CR LF, or after a CR that no LF follows.
\<close>

fun take_line :: "string \<Rightarrow> string \<times> string" where
  "take_line [] = ([], [])"
| "take_line (c # cs) =
     (if c = LF then ([c], cs)
      else if c = CR then
        (case cs of
           [] \<Rightarrow> ([c], [])
         | d # ds \<Rightarrow> if d = LF then ([c, d], ds) else ([c], cs))
      else (case take_line cs of (l, r) \<Rightarrow> (c # l, r)))"

lemma take_line_le: "length (snd (take_line s)) \<le> length s"
  by (induction s) (simp_all add: case_prod_beta split: list.split)

lemma take_line_length: "s \<noteq> [] \<Longrightarrow> length (snd (take_line s)) < length s"
  using take_line_le [of "tl s"]
  by (cases s) (simp_all add: case_prod_beta split: list.split)

function file_lines :: "string \<Rightarrow> string list" where
  "file_lines s = (if s = [] then [] else fst (take_line s) # file_lines (snd (take_line s)))"
  by pat_completeness auto
termination
  by (relation "measure length") (simp_all add: take_line_length)

declare file_lines.simps [simp del]

subsection \<open>The CSV reader\<close>

text \<open>
  \<^verbatim>\<open>csv.reader\<close> is a state machine fed one character at a time, and an end-of-line
  mark after each line.  Without an escape character its escape states are never
  entered and are left out.
\<close>

datatype parser_state =
  START_RECORD | START_FIELD | IN_FIELD | IN_QUOTED_FIELD | QUOTE_IN_QUOTED_FIELD | EAT_CRNL

record reader =
  state :: parser_state
  field :: string
  rfields :: "string list"

definition field_limit :: nat where
  "field_limit = 131072"

definition parse_reset :: reader where
  "parse_reset = \<lparr>state = START_RECORD, field = [], rfields = []\<rparr>"

definition parse_add_char :: "reader \<Rightarrow> char \<Rightarrow> pyerr + reader" where
  "parse_add_char rd c =
     (if field_limit \<le> length (field rd) then Inl CsvError
      else Inr (rd\<lparr>field := field rd @ [c]\<rparr>))"

definition parse_save_field :: "reader \<Rightarrow> reader" where
  "parse_save_field rd = rd\<lparr>rfields := rfields rd @ [field rd], field := []\<rparr>"

text \<open>One step of the machine; \<open>None\<close> is the end-of-line mark.\<close>

definition end_of_field :: "reader \<Rightarrow> char option \<Rightarrow> pyerr + reader" where
  "end_of_field rd c =
     Inr ((parse_save_field rd)\<lparr>state := (if c = None then START_RECORD else EAT_CRNL)\<rparr>)"

definition is_eol :: "char option \<Rightarrow> bool" where
  "is_eol c = (c = None \<or> c = Some LF \<or> c = Some CR)"

fun start_field :: "reader \<Rightarrow> char option \<Rightarrow> pyerr + reader" where
  "start_field rd c =
     (if is_eol c then end_of_field rd c
      else if c = Some DQ then Inr (rd\<lparr>state := IN_QUOTED_FIELD\<rparr>)
      else if c = Some COMMA then Inr (parse_save_field rd)
      else map_sum id (\<lambda>r. r\<lparr>state := IN_FIELD\<rparr>) (parse_add_char rd (the c)))"

fun parse_process_char :: "reader \<Rightarrow> char option \<Rightarrow> pyerr + reader" where
  "parse_process_char rd c =
     (case state rd of
        START_RECORD \<Rightarrow>
          if c = None then Inr rd
          else if c = Some LF \<or> c = Some CR then Inr (rd\<lparr>state := EAT_CRNL\<rparr>)
          else start_field (rd\<lparr>state := START_FIELD\<rparr>) c
      | START_FIELD \<Rightarrow> start_field rd c
      | IN_FIELD \<Rightarrow>
          if is_eol c then end_of_field rd c
          else if c = Some COMMA then Inr ((parse_save_field rd)\<lparr>state := START_FIELD\<rparr>)
          else parse_add_char rd (the c)
      | IN_QUOTED_FIELD \<Rightarrow>
          if c = None then Inr rd
          else if c = Some DQ then Inr (rd\<lparr>state := QUOTE_IN_QUOTED_FIELD\<rparr>)
          else parse_add_char rd (the c)
      | QUOTE_IN_QUOTED_FIELD \<Rightarrow>
          if c = Some DQ
          then map_sum id (\<lambda>r. r\<lparr>state := IN_QUOTED_FIELD\<rparr>) (parse_add_char rd DQ)
          else if c = Some COMMA then Inr ((parse_save_field rd)\<lparr>state := START_FIELD\<rparr>)
          else if is_eol c then end_of_field rd c
          else map_sum id (\<lambda>r. r\<lparr>state := IN_FIELD\<rparr>) (parse_add_char rd (the c))
      | EAT_CRNL \<Rightarrow>
          if c = Some LF \<or> c = Some CR then Inr rd
          else if c = None then Inr (rd\<lparr>state := START_RECORD\<rparr>)
          else Inl CsvError)"

declare start_field.simps [simp del]
declare parse_process_char.simps [simp del]

text \<open>The characters of one line, then the end-of-line mark.\<close>

fun feed_chars :: "reader \<Rightarrow> string \<Rightarrow> pyerr + reader" where
  "feed_chars rd [] = parse_process_char rd None"
| "feed_chars rd (c # cs) =
     (case parse_process_char rd (Some c) of
        Inl e \<Rightarrow> Inl e
      | Inr rd' \<Rightarrow> feed_chars rd' cs)"

text \<open>
  All rows of the reader.  A row is complete when a line ends in \<open>START_RECORD\<close>;
  the next row starts from a reset parser.  When the lines run out inside a row, the
  pending field closes the last row.
\<close>

fun read_rows :: "reader \<Rightarrow> string list \<Rightarrow> pyerr + string list list" where
  "read_rows rd [] =
     (if field rd \<noteq> [] \<or> state rd = IN_QUOTED_FIELD
      then Inr [rfields rd @ [field rd]] else Inr [])"
| "read_rows rd (l # ls) =
     (case feed_chars rd l of
        Inl e \<Rightarrow> Inl e
      | Inr rd' \<Rightarrow>
          if state rd' = START_RECORD
          then map_sum id ((#) (rfields rd')) (read_rows parse_reset ls)
          else read_rows rd' ls)"

definition csv_reader :: "string \<Rightarrow> pyerr + string list list" where
  "csv_reader text = read_rows parse_reset (file_lines text)"

subsection \<open>Rows as dictionaries\<close>

text \<open>
  \<^verbatim>\<open>dict(zip(fieldnames, row))\<close>: a field name that occurs twice keeps its first place
  and its last value.
\<close>

definition zip_dict :: "string list \<Rightarrow> string list \<Rightarrow> (string \<times> string option) list" where
  "zip_dict fieldnames row =
     foldl (\<lambda>d (k, v). AList.update k (Some v) d) [] (zip fieldnames row)"

text \<open>
  One row of \<^verbatim>\<open>csv.DictReader\<close>.  A row longer than the field names keeps the surplus
  under the key \<^verbatim>\<open>None\<close>; a shorter row has \<^verbatim>\<open>None\<close> for the names it does not reach.
\<close>

definition dict_row :: "string list \<Rightarrow> string list \<Rightarrow> pydict" where
  "dict_row fieldnames row =
     (let d = zip_dict fieldnames row
      in if length fieldnames < length row
         then \<lparr>entries = d, surplus = Some (drop (length fieldnames) row)\<rparr>
         else \<lparr>entries = foldl (\<lambda>d k. AList.update k None d) d (drop (length row) fieldnames),
               surplus = None\<rparr>)"

text \<open>
  \<^verbatim>\<open>csv.DictReader\<close>: the first row of the reader, whatever it is, gives the field names;
  of the rows after it the empty ones are skipped.
\<close>

definition dict_reader :: "string \<Rightarrow> pyerr + pydict list" where
  "dict_reader text =
     (case csv_reader text of
        Inl e \<Rightarrow> Inl e
      | Inr [] \<Rightarrow> Inr []
      | Inr (fieldnames # rows) \<Rightarrow>
          Inr (map (dict_row fieldnames) (filter (\<lambda>row. row \<noteq> []) rows)))"

text \<open>
  \<^verbatim>\<open>csv.DictWriter\<close> with the program's field names.  A dictionary with a key that is
  not one of them is refused; otherwise the row is the values of the field names, the
  empty string for a missing key, and \<^verbatim>\<open>None\<close> is written as the empty string.
\<close>

definition wrong_fields :: "pydict \<Rightarrow> bool" where
  "wrong_fields d =
     (surplus d \<noteq> None \<or> list_ex (\<lambda>k. k \<notin> set FIELDNAMES) (map fst (entries d)))"

definition str_field :: "pydict \<Rightarrow> string \<Rightarrow> string" where
  "str_field d k = (case map_of (entries d) k of Some (Some v) \<Rightarrow> v | _ \<Rightarrow> [])"

definition dict_to_list :: "pydict \<Rightarrow> string list" where
  "dict_to_list d = map (str_field d) FIELDNAMES"

subsection \<open>The store\<close>

text \<open>
  The file system as the program sees it: the text of \<^verbatim>\<open>students.csv\<close>, if the file
  exists, and the number of times the file has been opened for writing.
\<close>

record filesys =
  content :: "string option"
  writes :: nat

definition write_file :: "string \<Rightarrow> filesys \<Rightarrow> filesys" where
  "write_file text fs = \<lparr>content = Some text, writes = Suc (writes fs)\<rparr>"

definition ensure_file_exists :: "filesys \<Rightarrow> filesys" where
  "ensure_file_exists fs =
     (if content fs = None then write_file (writerow FIELDNAMES) fs else fs)"

definition load_students :: "filesys \<Rightarrow> filesys \<times> (pyerr + pydict list)" where
  "load_students fs =
     (let fs' = ensure_file_exists fs in (fs', dict_reader (the (content fs'))))"

text \<open>
  The loop of \<^verbatim>\<open>save_students\<close>: the text of the rows written, and the exception that
  stopped the loop, if one did.
\<close>

fun write_rows :: "pydict list \<Rightarrow> string \<times> pyerr option" where
  "write_rows [] = ([], None)"
| "write_rows (d # ds) =
     (if wrong_fields d then ([], Some ValueError)
      else case write_rows ds of (t, e) \<Rightarrow> (writerow (dict_to_list d) @ t, e))"

text \<open>
  \<^verbatim>\<open>save_students\<close> opens the file for writing, which empties it, before the first row
  is looked at; when a row is refused the file keeps the header and the rows before it.
\<close>

definition save_students :: "pydict list \<Rightarrow> filesys \<Rightarrow> filesys \<times> pyerr option" where
  "save_students students fs =
     (case write_rows students of (t, e) \<Rightarrow> (write_file (writerow FIELDNAMES @ t) fs, e))"

subsection \<open>The operations of the menu\<close>

text \<open>
  An operation takes the file system and the lines the user types at its prompts; it
  returns the file system it leaves, the arguments of its \<^verbatim>\<open>print\<close> calls in order, and
  the exception that ended it, if one did.  A prompt that is not reached does not read
  its line.
\<close>

type_synonym outcome = "filesys \<times> string list \<times> pyerr option"

text \<open>\<^verbatim>\<open>s["roll"].strip()\<close>.\<close>

definition roll_stripped :: "pydict \<Rightarrow> pyerr + string" where
  "roll_stripped s =
     (case getitem s ''roll'' of
        Inl e \<Rightarrow> Inl e
      | Inr None \<Rightarrow> Inl AttributeError
      | Inr (Some r) \<Rightarrow> Inr (strip r))"

fun find_by_roll :: "pydict list \<Rightarrow> string \<Rightarrow> pyerr + pydict option" where
  "find_by_roll [] r = Inr None"
| "find_by_roll (s # ss) r =
     (case roll_stripped s of
        Inl e \<Rightarrow> Inl e
      | Inr x \<Rightarrow> if x = strip r then Inr (Some s) else find_by_roll ss r)"

definition table_row :: "string \<Rightarrow> string \<Rightarrow> string \<Rightarrow> string" where
  "table_row a b c = ljust 10 a @ '' | '' @ ljust 30 b @ '' | '' @ ljust 6 c"

definition table_header :: "string list" where
  "table_header = [table_row ''Roll'' ''Name'' ''Marks'', replicate 52 (CHR ''-'')]"

text \<open>
  \<^verbatim>\<open>"{:10} | {:30} | {:6}".format(s["roll"], s["name"], s["marks"])\<close>: the three lookups
  come first, then the values are formatted, and \<^verbatim>\<open>None\<close> does not take a width.
\<close>

definition student_row :: "pydict \<Rightarrow> pyerr + string" where
  "student_row s =
     (case getitem s ''roll'' of
        Inl e \<Rightarrow> Inl e
      | Inr a \<Rightarrow>
          (case getitem s ''name'' of
             Inl e \<Rightarrow> Inl e
           | Inr b \<Rightarrow>
               (case getitem s ''marks'' of
                  Inl e \<Rightarrow> Inl e
                | Inr c \<Rightarrow>
                    if a = None \<or> b = None \<or> c = None then Inl TypeError
                    else Inr (table_row (the a) (the b) (the c)))))"

text \<open>The loop that prints the rows: the lines printed, and the exception that stopped it.\<close>

fun print_rows :: "pydict list \<Rightarrow> string list \<times> pyerr option" where
  "print_rows [] = ([], None)"
| "print_rows (s # ss) =
     (case student_row s of
        Inl e \<Rightarrow> ([], Some e)
      | Inr l \<Rightarrow> (case print_rows ss of (ls, e) \<Rightarrow> (l # ls, e)))"

definition add_student :: "(rat \<Rightarrow> string) \<Rightarrow> filesys \<Rightarrow> string \<Rightarrow> string \<Rightarrow> outcome" where
  "add_student fstr fs name_in marks_in =
     (case load_students fs of
        (fs1, Inl e) \<Rightarrow> (fs1, [], Some e)
      | (fs1, Inr students) \<Rightarrow>
          (case generate_roll students of
             Inl e \<Rightarrow> (fs1, [], Some e)
           | Inr r \<Rightarrow>
               let out1 = LF # ''Generated Roll Number: '' @ r;
                   n = strip name_in
               in if n = [] then (fs1, [out1, ''Name cannot be empty. Aborting add.''], None)
                  else case marks_string fstr (strip marks_in) of
                         None \<Rightarrow>
                           (fs1,
                            [out1,
                             ''Invalid marks. Please use a number between 0 and 100. Aborting add.''],
                            None)
                       | Some marks_str \<Rightarrow>
                           (case save_students
                                   (students @ [dict_of \<lparr>roll = r, name = n, marks = marks_str\<rparr>])
                                   fs1 of
                              (fs2, Some e) \<Rightarrow> (fs2, [out1], Some e)
                            | (fs2, None) \<Rightarrow>
                                (fs2,
                                 [out1, ''Student added successfully with Roll '' @ r @ ''.''],
                                 None))))"

text \<open>The comprehension \<^verbatim>\<open>[s for s in students if s["roll"].strip() != roll]\<close>.\<close>

fun without_roll :: "pydict list \<Rightarrow> string \<Rightarrow> pyerr + pydict list" where
  "without_roll [] r = Inr []"
| "without_roll (s # ss) r =
     (case roll_stripped s of
        Inl e \<Rightarrow> Inl e
      | Inr x \<Rightarrow> map_sum id (\<lambda>kept. if x \<noteq> r then s # kept else kept) (without_roll ss r))"

definition delete_student :: "filesys \<Rightarrow> string \<Rightarrow> string \<Rightarrow> outcome" where
  "delete_student fs roll_in confirm_in =
     (case load_students fs of
        (fs1, Inl e) \<Rightarrow> (fs1, [], Some e)
      | (fs1, Inr students) \<Rightarrow>
          let r = strip roll_in
          in if r = [] then (fs1, [''Empty roll. Aborting delete.''], None)
             else case find_by_roll students r of
                    Inl e \<Rightarrow> (fs1, [], Some e)
                  | Inr None \<Rightarrow>
                      (fs1, [''No student found with roll '' @ [CHR 0x27] @ r @ [CHR 0x27] @ ''.''],
                       None)
                  | Inr (Some found) \<Rightarrow>
                      (case getitem found ''name'' of
                         Inl e \<Rightarrow> (fs1, [], Some e)
                       | Inr found_name \<Rightarrow>
                           if lower (strip confirm_in) \<noteq> ''y''
                           then (fs1, [''Delete cancelled.''], None)
                           else case without_roll students r of
                                  Inl e \<Rightarrow> (fs1, [], Some e)
                                | Inr kept \<Rightarrow>
                                    (case save_students kept fs1 of
                                       (fs2, Some e) \<Rightarrow> (fs2, [], Some e)
                                     | (fs2, None) \<Rightarrow>
                                         (fs2, [''Student deleted and changes saved.''], None))))"

text \<open>
  The test \<^verbatim>\<open>query in s["roll"].lower() or query in s["name"].lower()\<close>: the name is
  looked at only when the roll does not match.
\<close>

definition matches :: "string \<Rightarrow> pydict \<Rightarrow> pyerr + bool" where
  "matches query s =
     (case getitem s ''roll'' of
        Inl e \<Rightarrow> Inl e
      | Inr None \<Rightarrow> Inl AttributeError
      | Inr (Some r) \<Rightarrow>
          if py_in query (lower r) then Inr True
          else (case getitem s ''name'' of
                  Inl e \<Rightarrow> Inl e
                | Inr None \<Rightarrow> Inl AttributeError
                | Inr (Some n) \<Rightarrow> Inr (py_in query (lower n))))"

fun search_results :: "string \<Rightarrow> pydict list \<Rightarrow> pyerr + pydict list" where
  "search_results query [] = Inr []"
| "search_results query (s # ss) =
     (case matches query s of
        Inl e \<Rightarrow> Inl e
      | Inr b \<Rightarrow> map_sum id (\<lambda>results. if b then s # results else results)
                   (search_results query ss))"

definition search_student :: "filesys \<Rightarrow> string \<Rightarrow> outcome" where
  "search_student fs query_in =
     (case load_students fs of
        (fs1, Inl e) \<Rightarrow> (fs1, [], Some e)
      | (fs1, Inr students) \<Rightarrow>
          let query = lower (strip query_in)
          in if query = [] then (fs1, [''Empty query. Aborting search.''], None)
             else case search_results query students of
                    Inl e \<Rightarrow> (fs1, [], Some e)
                  | Inr results \<Rightarrow>
                      if results = [] then (fs1, [''No matching student records found.''], None)
                      else case print_rows results of
                             (ls, e) \<Rightarrow>
                               (fs1,
                                [LF # ''Found '' @ str_int (int (length results)) @ '' result(s):'']
                                @ table_header @ ls @ (if e = None then [[]] else []),
                                e))"

text \<open>
  The two sorts of \<^verbatim>\<open>list_students\<close>.  The first is by \<^verbatim>\<open>int(x["roll"])\<close> and is given
  up when a key cannot be computed, whatever the exception.  The second is by
  \<^verbatim>\<open>x["roll"]\<close>: a missing key ends the operation, and so does a roll that is \<^verbatim>\<open>None\<close> as
  soon as there is a second record to compare it with.  Python's sort is stable.
\<close>

definition int_roll :: "pydict \<Rightarrow> int option" where
  "int_roll s = (case getitem s ''roll'' of Inr (Some r) \<Rightarrow> py_int r | _ \<Rightarrow> None)"

definition list_order :: "pydict list \<Rightarrow> pyerr + pydict list" where
  "list_order students =
     (if list_all (\<lambda>s. int_roll s \<noteq> None) students
      then Inr (sort_key (\<lambda>s. the (int_roll s)) students)
      else if list_ex (\<lambda>s. getitem s ''roll'' = Inl KeyError) students then Inl KeyError
      else if 2 \<le> length students \<and> list_ex (\<lambda>s. getitem s ''roll'' = Inr None) students
      then Inl TypeError
      else Inr (sort_key (\<lambda>s. str_field s ''roll'') students))"

definition list_students :: "bool \<Rightarrow> filesys \<Rightarrow> outcome" where
  "list_students show_header fs =
     (case load_students fs of
        (fs1, Inl e) \<Rightarrow> (fs1, [], Some e)
      | (fs1, Inr students) \<Rightarrow>
          if students = [] then (fs1, [''No student records yet.''], None)
          else case list_order students of
                 Inl e \<Rightarrow> (fs1, [], Some e)
               | Inr sorted_students \<Rightarrow>
                   (case print_rows sorted_students of
                      (ls, e) \<Rightarrow>
                        (fs1,
                         (if show_header then table_header else []) @ ls
                         @ (if e = None
                            then [LF # ''Total students: '' @ str_int (int (length students)) @ [LF]]
                            else []),
                         e)))"

text \<open>The loop that applies an edit: the first record with the roll, and no other.\<close>

fun apply_update ::
  "pydict list \<Rightarrow> string \<Rightarrow> string option \<Rightarrow> string option \<Rightarrow> pyerr + pydict list"
where
  "apply_update [] r new_name new_marks = Inr []"
| "apply_update (s # ss) r new_name new_marks =
     (case roll_stripped s of
        Inl e \<Rightarrow> Inl e
      | Inr x \<Rightarrow>
          if x = r then Inr (setitem (setitem s ''name'' new_name) ''marks'' new_marks # ss)
          else map_sum id ((#) s) (apply_update ss r new_name new_marks))"

definition edit_student ::
  "(rat \<Rightarrow> string) \<Rightarrow> filesys \<Rightarrow> string \<Rightarrow> string \<Rightarrow> string \<Rightarrow> outcome"
where
  "edit_student fstr fs roll_in name_in marks_in =
     (case load_students fs of
        (fs1, Inl e) \<Rightarrow> (fs1, [], Some e)
      | (fs1, Inr students) \<Rightarrow>
          let r = strip roll_in
          in if r = [] then (fs1, [''Empty roll. Aborting edit.''], None)
             else case find_by_roll students r of
                    Inl e \<Rightarrow> (fs1, [], Some e)
                  | Inr None \<Rightarrow>
                      (fs1, [''No student found with roll '' @ [CHR 0x27] @ r @ [CHR 0x27] @ ''.''],
                       None)
                  | Inr (Some student) \<Rightarrow>
                      (case getitem student ''name'' of
                         Inl e \<Rightarrow> (fs1, [], Some e)
                       | Inr old_name \<Rightarrow>
                      (case getitem student ''roll'' of
                         Inl e \<Rightarrow> (fs1, [], Some e)
                       | Inr old_roll \<Rightarrow>
                           let out1 = ''Editing '' @ py_str old_name
                                      @ '' (Roll '' @ py_str old_roll @ '')'';
                               new_name = (if strip name_in = [] then old_name
                                           else Some (strip name_in))
                           in case getitem student ''marks'' of
                                Inl e \<Rightarrow> (fs1, [out1], Some e)
                              | Inr old_marks \<Rightarrow>
                                  let new_marks_input = strip marks_in;
                                      new_marks =
                                        (if new_marks_input = [] then Some old_marks
                                         else map_option Some (marks_string fstr new_marks_input))
                                  in case new_marks of
                                       None \<Rightarrow> (fs1, [out1, ''Invalid marks. Aborting edit.''], None)
                                     | Some new_marks_str \<Rightarrow>
                                         (case apply_update students r new_name new_marks_str of
                                            Inl e \<Rightarrow> (fs1, [out1], Some e)
                                          | Inr updated \<Rightarrow>
                                              (case save_students updated fs1 of
                                                 (fs2, Some e) \<Rightarrow> (fs2, [out1], Some e)
                                               | (fs2, None) \<Rightarrow>
                                                   (fs2, [out1, ''Student updated and saved.''],
                                                    None))))))"

text \<open>
  The statistics.  What the operation prints is kept as values, one for each
  \<^verbatim>\<open>print\<close> call: the rounded average, the top marks, the heading of the toppers, a
  topper's name, roll and marks, and the empty line that ends the report.
\<close>

datatype report =
    No_records
  | Average_marks pyfloat
  | Top_marks pyfloat
  | Toppers_heading
  | Topper "string option" "string option" "string option"
  | Blank

text \<open>The guarded conversion \<^verbatim>\<open>float(s["marks"])\<close>: any exception gives \<open>0.0\<close>.\<close>

definition marks_list :: "pydict list \<Rightarrow> pyfloat list" where
  "marks_list students =
     map (\<lambda>s. case getitem s ''marks'' of
                 Inr (Some m) \<Rightarrow> (case py_float m of None \<Rightarrow> Fin 0 | Some x \<Rightarrow> x)
               | _ \<Rightarrow> Fin 0) students"

text \<open>\<^verbatim>\<open>max\<close> of a non-empty list of floats: the first element no later one exceeds.\<close>

definition py_max :: "pyfloat list \<Rightarrow> pyfloat" where
  "py_max ms = foldl (\<lambda>m x. if fgt x m then x else m) (hd ms) (tl ms)"

text \<open>\<^verbatim>\<open>float(s.get("marks", 0))\<close>, outside any \<^verbatim>\<open>try\<close>.\<close>

definition marks_again :: "pydict \<Rightarrow> pyerr + pyfloat" where
  "marks_again s =
     (case map_of (entries s) ''marks'' of
        None \<Rightarrow> Inr (Fin 0)
      | Some None \<Rightarrow> Inl TypeError
      | Some (Some m) \<Rightarrow> (case py_float m of None \<Rightarrow> Inl ValueError | Some x \<Rightarrow> Inr x))"

text \<open>The comprehension that selects the toppers.\<close>

fun toppers :: "pyfloat \<Rightarrow> pydict list \<Rightarrow> pyerr + pydict list" where
  "toppers max_marks [] = Inr []"
| "toppers max_marks (s # ss) =
     (case marks_again s of
        Inl e \<Rightarrow> Inl e
      | Inr m \<Rightarrow>
          map_sum id (\<lambda>ts. if feq m max_marks then s # ts else ts) (toppers max_marks ss))"

text \<open>The loop that prints the toppers.\<close>

fun topper_lines :: "pydict list \<Rightarrow> report list \<times> pyerr option" where
  "topper_lines [] = ([], None)"
| "topper_lines (t # ts) =
     (case getitem t ''name'' of
        Inl e \<Rightarrow> ([], Some e)
      | Inr a \<Rightarrow>
          (case getitem t ''roll'' of
             Inl e \<Rightarrow> ([], Some e)
           | Inr b \<Rightarrow>
               (case getitem t ''marks'' of
                  Inl e \<Rightarrow> ([], Some e)
                | Inr c \<Rightarrow> (case topper_lines ts of (ls, e) \<Rightarrow> (Topper a b c # ls, e)))))"

definition topper_and_average :: "filesys \<Rightarrow> filesys \<times> report list \<times> pyerr option" where
  "topper_and_average fs =
     (case load_students fs of
        (fs1, Inl e) \<Rightarrow> (fs1, [], Some e)
      | (fs1, Inr students) \<Rightarrow>
          if students = [] then (fs1, [No_records], None)
          else let ms = marks_list students;
                   total = foldl fadd (Fin 0) ms;
                   avg = fdiv_len total (length ms);
                   avg_rounded = py_round2 avg;
                   max_marks = py_max ms
               in case toppers max_marks students of
                    Inl e \<Rightarrow> (fs1, [], Some e)
                  | Inr ts \<Rightarrow>
                      (case topper_lines ts of
                         (ls, e) \<Rightarrow>
                           (fs1,
                            [Average_marks avg_rounded, Top_marks max_marks, Toppers_heading]
                            @ ls @ (if e = None then [Blank] else []),
                            e)))"

subsection \<open>Notions used in the statements\<close>

text \<open>The trimmed roll as \<^verbatim>\<open>generate_roll\<close> reads it; stores whose numeric-looking rolls
  are made of decimal digits, and the values of those rolls.\<close>

definition roll_text :: "pydict \<Rightarrow> string" where
  "roll_text s = (case get_roll s of Inr r \<Rightarrow> r | Inl e \<Rightarrow> [])"

definition decimal_rolls :: "pydict list \<Rightarrow> bool" where
  "decimal_rolls students =
     list_all (\<lambda>s. get_roll s \<noteq> Inl AttributeError
                  \<and> (isdigit (roll_text s) \<longrightarrow> list_all is_decimal (roll_text s))) students"

definition roll_values :: "pydict list \<Rightarrow> int list" where
  "roll_values students =
     map (\<lambda>s. int (nat_of_digits (roll_text s))) (filter (\<lambda>s. isdigit (roll_text s)) students)"

text \<open>The reader started in a given state on the lines of a text.\<close>

definition run :: "reader \<Rightarrow> string \<Rightarrow> pyerr + string list list" where
  "run rd t = read_rows rd (file_lines t)"

text \<open>A record of three strings whose fields the reader accepts: none is longer than its
  field limit.\<close>

definition fits :: "student \<Rightarrow> bool" where
  "fits s = (length (roll s) \<le> field_limit \<and> length (name s) \<le> field_limit
             \<and> length (marks s) \<le> field_limit)"

text \<open>The file that holds the header and one row of three fields for each record of a list.\<close>

definition csv_text :: "student list \<Rightarrow> string" where
  "csv_text students = writerow FIELDNAMES @ concat (map (\<lambda>s. writerow (row_of s)) students)"

text \<open>The rows \<^verbatim>\<open>DictWriter\<close> writes for a list of dictionaries it accepts.\<close>

definition rows_text :: "pydict list \<Rightarrow> string" where
  "rows_text ds = concat (map (\<lambda>d. writerow (dict_to_list d)) ds)"

text \<open>A record in which \<^verbatim>\<open>roll\<close>, \<^verbatim>\<open>name\<close> and \<^verbatim>\<open>marks\<close> are present and are strings; it
  may have other fields as well.\<close>

definition has_str :: "pydict \<Rightarrow> string \<Rightarrow> bool" where
  "has_str s k = (case map_of (entries s) k of Some (Some v) \<Rightarrow> True | _ \<Rightarrow> False)"

definition complete :: "pydict \<Rightarrow> bool" where
  "complete s = (has_str s ''roll'' \<and> has_str s ''name'' \<and> has_str s ''marks'')"

text \<open>Sample records for the concrete stores below.\<close>

definition asha :: student where
  "asha = \<lparr>roll = ''1001'', name = ''Asha'', marks = ''70''\<rparr>"

definition name_empty_msg :: string where
  "name_empty_msg = ''Name cannot be empty. Aborting add.''"

definition invalid_marks_msg :: string where
  "invalid_marks_msg = ''Invalid marks. Please use a number between 0 and 100. Aborting add.''"

text \<open>Every field the reader has produced is within its field limit.\<close>

definition reader_ok :: "reader \<Rightarrow> bool" where
  "reader_ok rd = (length (field rd) \<le> field_limit
                   \<and> (\<forall>f \<in> set (rfields rd). length f \<le> field_limit))"

text \<open>A second sample record; its roll differs from that of \<open>asha\<close> by a trailing blank.\<close>

definition bo :: student where
  "bo = \<lparr>roll = ''1001 '', name = ''Bo'', marks = ''81''\<rparr>"

text \<open>Three records for the listing examples: two numeric rolls and one that is not.\<close>

definition ten :: student where
  "ten = \<lparr>roll = ''10'', name = ''Kim'', marks = ''55''\<rparr>"

definition nine :: student where
  "nine = \<lparr>roll = ''9'', name = ''Lee'', marks = ''65''\<rparr>"

definition tenx :: student where
  "tenx = \<lparr>roll = ''10x'', name = ''Mo'', marks = ''75''\<rparr>"

text \<open>
  Files with rows that are shorter or longer than the header: a row of two fields, a
  row of one field, and a row of four fields between two rows of three.
\<close>

definition two_fields :: filesys where
  "two_fields = \<lparr>content = Some (writerow FIELDNAMES @ writerow [''7'', ''Al'']), writes = 0\<rparr>"

definition one_field :: filesys where
  "one_field = \<lparr>content = Some (writerow FIELDNAMES @ writerow [''7'']), writes = 0\<rparr>"

definition four_fields :: filesys where
  "four_fields =
     \<lparr>content = Some (writerow FIELDNAMES @ writerow [''1001'', ''Asha'', ''70'']
                       @ writerow [''7'', ''Al'', ''5'', ''x''] @ writerow [''8'', ''Bo'', ''6'']),
      writes = 0\<rparr>"

text \<open>Two files under another header: one without a name column, one without a roll column.\<close>

definition no_name :: filesys where
  "no_name =
     \<lparr>content = Some (writerow [''roll'', ''marks''] @ writerow [''1001'', ''70'']
                       @ writerow [''1001 '', ''81'']),
      writes = 0\<rparr>"

definition no_roll :: filesys where
  "no_roll = \<lparr>content = Some (writerow [''name'', ''marks''] @ writerow [''Al'', ''5'']), writes = 0\<rparr>"

text \<open>A file with a row of four fields before two rows that share the trimmed roll 1001.\<close>

definition dup_four :: filesys where
  "dup_four =
     \<lparr>content = Some (writerow FIELDNAMES @ writerow [''7'', ''Al'', ''5'', ''x'']
                       @ writerow [''1001'', ''Asha'', ''70''] @ writerow [''1001 '', ''Bo'', ''81'']),
      writes = 0\<rparr>"

text \<open>The records of these files as the reader returns them.\<close>

definition al_four :: pydict where
  "al_four =
     \<lparr>entries = [(''roll'', Some ''7''), (''name'', Some ''Al''), (''marks'', Some ''5'')],
      surplus = Some [''x'']\<rparr>"

definition al_two :: pydict where
  "al_two =
     \<lparr>entries = [(''roll'', Some ''7''), (''name'', Some ''Al''), (''marks'', None)],
      surplus = None\<rparr>"

definition al_one :: pydict where
  "al_one =
     \<lparr>entries = [(''roll'', Some ''7''), (''name'', None), (''marks'', None)], surplus = None\<rparr>"

text \<open>A rendering of the floats that are not whole numbers, for the examples in which
  none is printed.\<close>

definition no_repr :: "rat \<Rightarrow> string" where
  "no_repr q = []"

text \<open>A record with a roll and a name field (the name may be \<^verbatim>\<open>None\<close>).\<close>

definition named :: "pydict \<Rightarrow> bool" where
  "named s = (has_str s ''roll'' \<and> map_of (entries s) ''name'' \<noteq> None)"

text \<open>The line of the table for a record whose roll, name and marks are strings.\<close>

definition table_line :: "pydict \<Rightarrow> string" where
  "table_line s = table_row (str_field s ''roll'') (str_field s ''name'') (str_field s ''marks'')"

text \<open>A record after \<^verbatim>\<open>s["name"] = n\<close> and \<^verbatim>\<open>s["marks"] = m\<close>.\<close>

definition edited :: "pydict \<Rightarrow> string \<Rightarrow> string \<Rightarrow> pydict" where
  "edited s n m = setitem (setitem s ''name'' (Some n)) ''marks'' (Some m)"

section \<open>Roll generation\<close>

lemma strip_ends_id:
  "s = [] \<or> (\<not> P (hd s) \<and> \<not> P (last s)) \<Longrightarrow> rev (dropWhile P (rev (dropWhile P s))) = s"
proof (cases s)
  case Nil
  then show ?thesis by simp
next
  case (Cons c cs)
  assume "s = [] \<or> (\<not> P (hd s) \<and> \<not> P (last s))"
  with Cons have h: "\<not> P c" and l: "\<not> P (last (c # cs))" by auto
  from h have "dropWhile P (c # cs) = c # cs" by simp
  moreover from l have "dropWhile P (rev (c # cs)) = rev (c # cs)"
    by (metis dropWhile.simps(2) hd_rev list.sel(1) neq_Nil_conv rev_is_Nil_conv dropWhile.simps(1))
  ultimately show ?thesis using Cons by simp
qed

lemma decimal_not_space: "is_decimal c \<Longrightarrow> \<not> num_isspace c"
  by (auto simp: is_decimal_def num_isspace_def)

lemma decimal_not_underscore: "is_decimal c \<Longrightarrow> c \<noteq> CHR ''_''"
  by (auto simp: is_decimal_def)

lemma decimal_not_sign: "is_decimal c \<Longrightarrow> c \<noteq> CHR ''-'' \<and> c \<noteq> CHR ''+''"
  by (auto simp: is_decimal_def)

lemma drop_underscores_decimal:
  "list_all is_decimal ds \<Longrightarrow> prev \<noteq> CHR ''_'' \<Longrightarrow> drop_underscores prev ds = Some ds"
  by (induction ds arbitrary: prev) (auto simp: decimal_not_underscore)

lemma num_strip_decimal: "list_all is_decimal ds \<Longrightarrow> num_strip ds = ds"
  unfolding num_strip_def
  by (rule strip_ends_id) (cases ds; auto simp: decimal_not_space list_all_iff)

lemma py_int_decimal:
  assumes "ds \<noteq> []" and "list_all is_decimal ds"
  shows "py_int ds = Some (int (nat_of_digits ds))"
proof -
  from assms obtain c cs where ds: "ds = c # cs" by (cases ds) auto
  with assms have "is_decimal c" by simp
  then have "split_sign ds = (False, ds)"
    using ds decimal_not_sign by simp
  then show ?thesis
    using assms by (simp add: py_int_def num_strip_decimal drop_underscores_decimal)
qed

lemma max_list_Max: "ns \<noteq> [] \<Longrightarrow> max_list ns = Max (set ns)"
proof (cases ns)
  case Nil
  assume "ns \<noteq> []"
  with Nil show ?thesis by simp
next
  case (Cons a as)
  have "(\<lambda>x s. max s x) = (max :: int \<Rightarrow> int \<Rightarrow> int)"
    by (intro ext) (simp add: max.commute)
  moreover have "Max (set (a # as)) = fold max as a"
    by (rule Max.set_eq_fold)
  ultimately show ?thesis
    using Cons by (simp add: max_list_def foldl_conv_fold)
qed

lemma numeric_rolls_decimal:
  "decimal_rolls students \<Longrightarrow> numeric_rolls students = Inr (roll_values students)"
proof (induction students)
  case Nil
  then show ?case by (simp add: roll_values_def)
next
  case (Cons s ss)
  then have ih: "numeric_rolls ss = Inr (roll_values ss)" by (simp add: decimal_rolls_def)
  from Cons.prems have "get_roll s \<noteq> Inl AttributeError" by (simp add: decimal_rolls_def)
  then have g: "get_roll s = Inr (roll_text s)"
    by (auto simp: get_roll_def roll_text_def split: option.splits)
  show ?case
  proof (cases "isdigit (roll_text s)")
    case True
    with Cons.prems have "list_all is_decimal (roll_text s)" and "roll_text s \<noteq> []"
      by (auto simp: decimal_rolls_def isdigit_def)
    then have "py_int (roll_text s) = Some (int (nat_of_digits (roll_text s)))"
      using py_int_decimal by blast
    with True ih g show ?thesis by (simp add: roll_values_def)
  next
    case False
    with ih g show ?thesis by (simp add: roll_values_def)
  qed
qed

lemma generate_roll_decimal:
  assumes "decimal_rolls students"
  shows "generate_roll students =
     Inr (if students = [] then ''1001''
          else if roll_values students = []
          then str_int (1001 + int (length students))
          else str_int (Max (set (roll_values students)) + 1))"
proof -
  have "str_int START_ROLL = ''1001''" by code_simp
  then show ?thesis
    using assms by (simp add: generate_roll_def numeric_rolls_decimal max_list_Max START_ROLL_def)
qed

text \<open>
  C1.  The roll generator is meant to skip every roll that is not numeric.  A roll made
  of a superscript digit passes \<^verbatim>\<open>isdigit\<close>, and the conversion that follows raises:
  on a store holding the single roll \<open>U+00B2\<close> no roll is generated.
\<close>

theorem generate_roll_superscript:
  "generate_roll [dict_of \<lparr>roll = [CHR 0xB2], name = ''Asha'', marks = ''70''\<rparr>] = Inl ValueError"
  by (simp add: generate_roll_def get_roll_def dict_of_def strip_def py_isspace_def isdigit_def
      isdigit_chr_def is_decimal_def py_int_def num_strip_def num_isspace_def)

section \<open>Saving, then loading\<close>

lemma chars_distinct [simp]:
  "CR \<noteq> LF" "LF \<noteq> CR" "DQ \<noteq> LF" "DQ \<noteq> CR" "COMMA \<noteq> LF" "COMMA \<noteq> CR"
  "COMMA \<noteq> DQ" "DQ \<noteq> COMMA" "LF \<noteq> DQ" "CR \<noteq> DQ" "LF \<noteq> COMMA" "CR \<noteq> COMMA"
  by (simp_all add: CR_def LF_def DQ_def COMMA_def)

lemma file_lines_Nil [simp]: "file_lines [] = []"
  by (simp add: file_lines.simps)

lemma file_lines_LF [simp]: "file_lines (LF # t) = [LF] # file_lines t"
  by (subst file_lines.simps) simp

lemma file_lines_CRLF [simp]: "file_lines (CR # LF # t) = [CR, LF] # file_lines t"
  by (subst file_lines.simps) simp

lemma file_lines_CR: "t = [] \<or> hd t \<noteq> LF \<Longrightarrow> file_lines (CR # t) = [CR] # file_lines t"
  by (subst file_lines.simps) (auto split: list.split)

lemma file_lines_plain:
  "c \<noteq> LF \<Longrightarrow> c \<noteq> CR \<Longrightarrow> t \<noteq> [] \<Longrightarrow>
   file_lines (c # t) = (c # fst (take_line t)) # file_lines (snd (take_line t))"
  by (subst file_lines.simps) (simp add: case_prod_beta)

lemma file_lines_single: "c \<noteq> LF \<Longrightarrow> c \<noteq> CR \<Longrightarrow> file_lines [c] = [[c]]"
  by (subst file_lines.simps) simp

lemma read_rows_cons_char:
  "read_rows rd ((c # l) # ls) =
     (case parse_process_char rd (Some c) of Inl e \<Rightarrow> Inl e | Inr rd' \<Rightarrow> read_rows rd' (l # ls))"
  by (cases "parse_process_char rd (Some c)") simp_all

lemma run_plain:
  assumes "c \<noteq> LF" "c \<noteq> CR" "t \<noteq> []"
  shows "run rd (c # t) =
     (case parse_process_char rd (Some c) of Inl e \<Rightarrow> Inl e | Inr rd' \<Rightarrow> run rd' t)"
proof -
  define l ls where "l = fst (take_line t)" and "ls = file_lines (snd (take_line t))"
  have t: "file_lines t = l # ls"
    unfolding l_def ls_def using assms(3) by (subst file_lines.simps) simp
  have ct: "file_lines (c # t) = (c # l) # ls"
    unfolding l_def ls_def using assms by (rule file_lines_plain)
  show ?thesis
    unfolding run_def ct t by (rule read_rows_cons_char)
qed

lemma quoted_add:
  "state rd = IN_QUOTED_FIELD \<Longrightarrow> c \<noteq> DQ \<Longrightarrow>
   parse_process_char rd (Some c) =
     (if field_limit \<le> length (field rd) then Inl CsvError
      else Inr (rd\<lparr>field := field rd @ [c]\<rparr>))"
  by (simp add: parse_process_char.simps parse_add_char_def)

lemma quoted_eol: "state rd = IN_QUOTED_FIELD \<Longrightarrow> parse_process_char rd None = Inr rd"
  by (simp add: parse_process_char.simps)

lemma run_quoted_char:
  assumes q: "state rd = IN_QUOTED_FIELD" and c: "c \<noteq> DQ"
    and len: "length (field rd) < field_limit"
  shows "run rd (c # t) = run (rd\<lparr>field := field rd @ [c]\<rparr>) t"
proof -
  let ?rd1 = "rd\<lparr>field := field rd @ [c]\<rparr>"
  have step: "parse_process_char rd (Some c) = Inr ?rd1"
    using q c len by (simp add: quoted_add)
  have q1: "state ?rd1 = IN_QUOTED_FIELD" using q by simp
  have line: "read_rows rd ([c] # ls) = read_rows ?rd1 ls" for ls
    using step q1 by (simp add: quoted_eol)
  consider (lf) "c = LF" | (crlf) ds where "c = CR" "t = LF # ds"
    | (cr) "c = CR" "t = [] \<or> hd t \<noteq> LF" | (plain) "c \<noteq> LF" "c \<noteq> CR"
    by (cases t) auto
  then show ?thesis
  proof cases
    case lf
    then show ?thesis using line by (simp add: run_def)
  next
    case cr
    then show ?thesis using line by (simp add: run_def file_lines_CR)
  next
    case crlf
    have "read_rows rd ([CR, LF] # ls) = read_rows ?rd1 ([LF] # ls)" for ls
      using step crlf(1) by simp
    then show ?thesis using crlf by (simp add: run_def)
  next
    case plain
    show ?thesis
    proof (cases "t = []")
      case True
      then show ?thesis using plain line by (simp add: run_def file_lines_single)
    next
      case False
      then show ?thesis using plain step by (simp add: run_plain)
    qed
  qed
qed


lemma run_quoted_body:
  "length f + length s \<le> field_limit \<Longrightarrow>
   run \<lparr>state = IN_QUOTED_FIELD, field = f, rfields = fs\<rparr> (escape s @ DQ # rest) =
   run \<lparr>state = IN_QUOTED_FIELD, field = f @ s, rfields = fs\<rparr> (DQ # rest)"
proof (induction s arbitrary: f)
  case Nil
  then show ?case by simp
next
  case (Cons c s)
  from Cons.prems have len: "length f < field_limit" and len': "length (f @ [c]) + length s \<le> field_limit"
    by simp_all
  show ?case
  proof (cases "c = DQ")
    case True
    have "run \<lparr>state = IN_QUOTED_FIELD, field = f, rfields = fs\<rparr> (DQ # DQ # escape s @ DQ # rest) =
          run \<lparr>state = IN_QUOTED_FIELD, field = f @ [DQ], rfields = fs\<rparr> (escape s @ DQ # rest)"
      using len by (simp add: run_plain parse_process_char.simps parse_add_char_def)
    with True Cons.IH [OF len'] show ?thesis by simp
  next
    case False
    have "run \<lparr>state = IN_QUOTED_FIELD, field = f, rfields = fs\<rparr> (c # escape s @ DQ # rest) =
          run \<lparr>state = IN_QUOTED_FIELD, field = f @ [c], rfields = fs\<rparr> (escape s @ DQ # rest)"
      using run_quoted_char [of "\<lparr>state = IN_QUOTED_FIELD, field = f, rfields = fs\<rparr>" c] False len
      by simp
    with False Cons.IH [OF len'] show ?thesis by simp
  qed
qed

lemma run_quoted_field:
  assumes "length s \<le> field_limit" "rest \<noteq> []"
  shows "run \<lparr>state = START_FIELD, field = [], rfields = fs\<rparr> (DQ # escape s @ DQ # rest) =
         run \<lparr>state = QUOTE_IN_QUOTED_FIELD, field = s, rfields = fs\<rparr> rest"
proof -
  have "run \<lparr>state = START_FIELD, field = [], rfields = fs\<rparr> (DQ # escape s @ DQ # rest) =
        run \<lparr>state = IN_QUOTED_FIELD, field = [], rfields = fs\<rparr> (escape s @ DQ # rest)"
    by (simp add: run_plain parse_process_char.simps start_field.simps is_eol_def)
  also have "\<dots> = run \<lparr>state = IN_QUOTED_FIELD, field = s, rfields = fs\<rparr> (DQ # rest)"
    using run_quoted_body [of "[]" s fs rest] assms(1) by simp
  also have "\<dots> = run \<lparr>state = QUOTE_IN_QUOTED_FIELD, field = s, rfields = fs\<rparr> rest"
    using assms(2) by (simp add: run_plain parse_process_char.simps)
  finally show ?thesis .
qed

lemma run_plain_body:
  assumes "st = START_FIELD \<or> st = IN_FIELD" "\<not> list_ex special s"
    "length f + length s \<le> field_limit" "rest \<noteq> []"
  shows "run \<lparr>state = st, field = f, rfields = fs\<rparr> (s @ rest) =
         run \<lparr>state = (if s = [] then st else IN_FIELD), field = f @ s, rfields = fs\<rparr> rest"
  using assms
proof (induction s arbitrary: st f)
  case Nil
  then show ?case by simp
next
  case (Cons c s)
  from Cons.prems have sc: "\<not> special c"
    and s: "\<not> list_ex special s" and len: "length f < field_limit"
    and len': "length (f @ [c]) + length s \<le> field_limit"
    by simp_all
  from sc have c: "c \<noteq> LF" "c \<noteq> CR" "c \<noteq> DQ" "c \<noteq> COMMA"
    by (simp_all add: special_def)
  have "run \<lparr>state = st, field = f, rfields = fs\<rparr> (c # s @ rest) =
        run \<lparr>state = IN_FIELD, field = f @ [c], rfields = fs\<rparr> (s @ rest)"
    using c len Cons.prems(1,4)
    by (auto simp: run_plain parse_process_char.simps start_field.simps is_eol_def
        parse_add_char_def)
  also have "\<dots> = run \<lparr>state = (if s = [] then IN_FIELD else IN_FIELD), field = (f @ [c]) @ s,
                         rfields = fs\<rparr> rest"
    by (rule Cons.IH) (use s len' Cons.prems(4) in simp_all)
  finally show ?case by simp
qed

lemma run_comma:
  assumes "st = START_FIELD \<or> st = IN_FIELD \<or> st = QUOTE_IN_QUOTED_FIELD" "rest \<noteq> []"
  shows "run \<lparr>state = st, field = f, rfields = fs\<rparr> (COMMA # rest) =
         run \<lparr>state = START_FIELD, field = [], rfields = fs @ [f]\<rparr> rest"
  using assms
  by (auto simp: run_plain parse_process_char.simps start_field.simps is_eol_def
      parse_save_field_def)

lemma run_crlf:
  assumes "st = START_FIELD \<or> st = IN_FIELD \<or> st = QUOTE_IN_QUOTED_FIELD"
  shows "run \<lparr>state = st, field = f, rfields = fs\<rparr> (CR # LF # rest) =
         map_sum id ((#) (fs @ [f])) (run parse_reset rest)"
  using assms
  by (auto simp: run_def parse_process_char.simps start_field.simps is_eol_def
      parse_save_field_def end_of_field_def)

lemma run_field_comma:
  assumes "length a \<le> field_limit" "rest \<noteq> []"
  shows "run \<lparr>state = START_FIELD, field = [], rfields = fs\<rparr> (csv_field a @ COMMA # rest) =
         run \<lparr>state = START_FIELD, field = [], rfields = fs @ [a]\<rparr> rest"
proof (cases "list_ex special a")
  case True
  then show ?thesis
    using assms run_quoted_field [of a "COMMA # rest" fs]
    by (simp add: csv_field_def run_comma)
next
  case False
  then show ?thesis
    using assms run_plain_body [of START_FIELD a "[]" "COMMA # rest" fs]
    by (simp add: csv_field_def run_comma)
qed

lemma run_field_crlf:
  assumes "length a \<le> field_limit"
  shows "run \<lparr>state = START_FIELD, field = [], rfields = fs\<rparr> (csv_field a @ CR # LF # rest) =
         map_sum id ((#) (fs @ [a])) (run parse_reset rest)"
proof (cases "list_ex special a")
  case True
  then show ?thesis
    using assms run_quoted_field [of a "CR # LF # rest" fs]
    by (simp add: csv_field_def run_crlf)
next
  case False
  then show ?thesis
    using assms run_plain_body [of START_FIELD a "[]" "CR # LF # rest" fs]
    by (simp add: csv_field_def run_crlf)
qed


lemma run_start:
  assumes "x \<noteq> LF" "x \<noteq> CR" "t \<noteq> []"
  shows "run parse_reset (x # t) = run \<lparr>state = START_FIELD, field = [], rfields = []\<rparr> (x # t)"
  using assms
  by (simp add: run_plain parse_process_char.simps parse_reset_def)

lemma csv_field_head:
  assumes "rest \<noteq> []"
  shows "\<exists>x t. csv_field a @ COMMA # rest = x # t \<and> x \<noteq> LF \<and> x \<noteq> CR \<and> t \<noteq> []"
proof (cases a)
  case Nil
  then show ?thesis using assms by (simp add: csv_field_def)
next
  case (Cons c cs)
  show ?thesis
  proof (cases "list_ex special a")
    case True
    then show ?thesis by (simp add: csv_field_def)
  next
    case False
    with Cons have "\<not> special c" by simp
    then have "c \<noteq> LF" "c \<noteq> CR" by (simp_all add: special_def)
    with False Cons show ?thesis by (simp add: csv_field_def)
  qed
qed

lemma writerow3:
  "writerow [a, b, c] = csv_field a @ COMMA # csv_field b @ COMMA # csv_field c @ CR # LF # []"
  by (simp add: writerow_def)

lemma run_row:
  assumes "length a \<le> field_limit" "length b \<le> field_limit" "length c \<le> field_limit"
  shows "run parse_reset (writerow [a, b, c] @ rest) =
         map_sum id ((#) [a, b, c]) (run parse_reset rest)"
proof -
  let ?t1 = "csv_field b @ COMMA # csv_field c @ CR # LF # rest"
  let ?t2 = "csv_field c @ CR # LF # rest"
  obtain x t where xt: "csv_field a @ COMMA # ?t1 = x # t" "x \<noteq> LF" "x \<noteq> CR" "t \<noteq> []"
    using csv_field_head [of ?t1 a] by auto
  have "run parse_reset (writerow [a, b, c] @ rest) = run parse_reset (csv_field a @ COMMA # ?t1)"
    by (simp add: writerow3)
  also have "\<dots> = run \<lparr>state = START_FIELD, field = [], rfields = []\<rparr> (csv_field a @ COMMA # ?t1)"
    unfolding xt(1) using xt(2-4) by (rule run_start)
  also have "\<dots> = run \<lparr>state = START_FIELD, field = [], rfields = [] @ [a]\<rparr> ?t1"
    by (rule run_field_comma) (use assms in simp_all)
  also have "\<dots> = run \<lparr>state = START_FIELD, field = [], rfields = ([] @ [a]) @ [b]\<rparr> ?t2"
    by (rule run_field_comma) (use assms in simp_all)
  also have "\<dots> = map_sum id ((#) ((([] @ [a]) @ [b]) @ [c])) (run parse_reset rest)"
    by (rule run_field_crlf) (use assms in simp)
  finally show ?thesis by simp
qed

lemma run_rows:
  "list_all fits xs \<Longrightarrow>
   run parse_reset (concat (map (\<lambda>s. writerow (row_of s)) xs)) = Inr (map row_of xs)"
proof (induction xs)
  case Nil
  then show ?case by (simp add: run_def parse_reset_def)
next
  case (Cons s xs)
  then have "fits s" and ih: "run parse_reset (concat (map (\<lambda>s. writerow (row_of s)) xs)) = Inr (map row_of xs)"
    by simp_all
  have "run parse_reset (writerow [roll s, name s, marks s] @ concat (map (\<lambda>s. writerow (row_of s)) xs))
        = map_sum id ((#) [roll s, name s, marks s])
            (run parse_reset (concat (map (\<lambda>s. writerow (row_of s)) xs)))"
    by (rule run_row) (use \<open>fits s\<close> in \<open>simp_all add: fits_def\<close>)
  then show ?case
    unfolding ih by (simp add: row_of_def)
qed

lemma csv_reader_text:
  assumes "list_all fits xs"
  shows "csv_reader (csv_text xs) = Inr (FIELDNAMES # map row_of xs)"
proof -
  have "run parse_reset (writerow [''roll'', ''name'', ''marks''] @ concat (map (\<lambda>s. writerow (row_of s)) xs))
        = map_sum id ((#) [''roll'', ''name'', ''marks''])
            (run parse_reset (concat (map (\<lambda>s. writerow (row_of s)) xs)))"
    by (rule run_row) (simp_all add: field_limit_def)
  then show ?thesis
    using run_rows [OF assms] by (simp add: csv_reader_def csv_text_def FIELDNAMES_def run_def)
qed

lemma dict_row_row_of: "dict_row FIELDNAMES (row_of s) = dict_of s"
  by (simp add: dict_row_def zip_dict_def FIELDNAMES_def row_of_def dict_of_def)

lemma row_of_not_blank: "filter (\<lambda>row. row \<noteq> []) (map row_of xs) = map row_of xs"
  by (induction xs) (simp_all add: row_of_def)

lemma dict_reader_text: "list_all fits xs \<Longrightarrow> dict_reader (csv_text xs) = Inr (map dict_of xs)"
  by (simp add: dict_reader_def csv_reader_text row_of_not_blank dict_row_row_of)

lemma load_saved:
  "list_all fits xs \<Longrightarrow>
   load_students \<lparr>content = Some (csv_text xs), writes = n\<rparr> =
     (\<lparr>content = Some (csv_text xs), writes = n\<rparr>, Inr (map dict_of xs))"
  by (simp add: load_students_def ensure_file_exists_def dict_reader_text)

lemma wrong_fields_dict_of [simp]: "\<not> wrong_fields (dict_of s)"
  by (simp add: wrong_fields_def dict_of_def FIELDNAMES_def)

lemma dict_to_list_dict_of [simp]: "dict_to_list (dict_of s) = row_of s"
  by (simp add: dict_to_list_def str_field_def dict_of_def FIELDNAMES_def row_of_def)

lemma write_rows_plain: "\<not> list_ex wrong_fields ds \<Longrightarrow> write_rows ds = (rows_text ds, None)"
  by (induction ds) (simp_all add: rows_text_def)

lemma write_rows_append:
  "\<not> list_ex wrong_fields ds \<Longrightarrow>
   write_rows (ds @ es) = (rows_text ds @ fst (write_rows es), snd (write_rows es))"
  by (induction ds) (simp_all add: rows_text_def case_prod_beta)

lemma rows_text_dict_of:
  "rows_text (map dict_of xs) = concat (map (\<lambda>s. writerow (row_of s)) xs)"
  by (induction xs) (simp_all add: rows_text_def)

lemma list_ex_wrong_dict_of [simp]: "\<not> list_ex wrong_fields (map dict_of xs)"
  by (induction xs) simp_all

lemma save_students_dict_of:
  "save_students (map dict_of xs) fs = (write_file (csv_text xs) fs, None)"
  by (simp add: save_students_def write_rows_plain rows_text_dict_of csv_text_def)

text \<open>
  C10.  Loading the store right after \<^verbatim>\<open>save_students(records)\<close> returns exactly the
  list that was saved, for every list of records whose roll, name and marks are strings
  within the field size limit of the CSV reader (131072 characters): same length, same
  order, same fields.  The save itself raises nothing.
\<close>

theorem save_then_load:
  "list_all fits students \<Longrightarrow>
   snd (save_students (map dict_of students) fs) = None
   \<and> load_students (fst (save_students (map dict_of students) fs)) =
       (fst (save_students (map dict_of students) fs), Inr (map dict_of students))"
  by (simp add: save_students_dict_of write_file_def load_saved)

theorem save_then_load_witness:
  "list_all fits
     [\<lparr>roll = ''1001'', name = ''Rao, \"Asha\"'', marks = ''70''\<rparr>,
      \<lparr>roll = ''1002'', name = [CHR ''a'', CR, LF, CHR ''b''], marks = []\<rparr>]
   \<and> snd (load_students (fst (save_students
       (map dict_of
          [\<lparr>roll = ''1001'', name = ''Rao, \"Asha\"'', marks = ''70''\<rparr>,
           \<lparr>roll = ''1002'', name = [CHR ''a'', CR, LF, CHR ''b''], marks = []\<rparr>])
       \<lparr>content = None, writes = 0\<rparr>)))
     = Inr (map dict_of
         [\<lparr>roll = ''1001'', name = ''Rao, \"Asha\"'', marks = ''70''\<rparr>,
          \<lparr>roll = ''1002'', name = [CHR ''a'', CR, LF, CHR ''b''], marks = []\<rparr>])"
proof -
  have h: "list_all fits
     [\<lparr>roll = ''1001'', name = ''Rao, \"Asha\"'', marks = ''70''\<rparr>,
      \<lparr>roll = ''1002'', name = [CHR ''a'', CR, LF, CHR ''b''], marks = []\<rparr>]"
    by (simp add: fits_def field_limit_def)
  show ?thesis
    using h save_then_load [OF h, of "\<lparr>content = None, writes = 0\<rparr>"] by simp
qed

section \<open>Statistics, Edit and Add on concrete and arbitrary stores\<close>

lemma py_float_abc: "py_float ''abc'' = None" by code_simp
lemma py_float_nan: "py_float ''nan'' = Some NaN" by code_simp
lemma py_float_101: "py_float ''101'' = Some (Fin 101)" by code_simp
lemma py_float_100: "py_float ''100'' = Some (Fin 100)" by code_simp
lemma str_int_100: "str_int 100 = ''100''" by code_simp

lemma fits_asha: "fits asha" by (simp add: fits_def asha_def field_limit_def)

lemmas reader_eval =
  load_students_def ensure_file_exists_def dict_reader_def csv_reader_def
  file_lines.simps parse_process_char.simps start_field.simps parse_add_char_def
  parse_save_field_def end_of_field_def is_eol_def parse_reset_def field_limit_def
  FIELDNAMES_def LF_def CR_def DQ_def COMMA_def writerow_def csv_field_def special_def
  dict_row_def zip_dict_def

lemma writes_stores [simp]:
  "writes four_fields = 0" "writes two_fields = 0" "writes one_field = 0"
  "writes no_name = 0" "writes no_roll = 0" "writes dup_four = 0"
  by (simp_all add: four_fields_def two_fields_def one_field_def no_name_def no_roll_def
      dup_four_def)

lemma load_four_fields:
  "load_students four_fields =
     (four_fields, Inr [dict_of asha, al_four, dict_of \<lparr>roll = ''8'', name = ''Bo'', marks = ''6''\<rparr>])"
  by (simp add: four_fields_def reader_eval dict_of_def asha_def al_four_def)

lemma load_two_fields: "load_students two_fields = (two_fields, Inr [al_two])"
  by (simp add: two_fields_def reader_eval al_two_def)

lemma load_one_field: "load_students one_field = (one_field, Inr [al_one])"
  by (simp add: one_field_def reader_eval al_one_def)

lemma load_no_name:
  "load_students no_name =
     (no_name,
      Inr [\<lparr>entries = [(''roll'', Some ''1001''), (''marks'', Some ''70'')], surplus = None\<rparr>,
           \<lparr>entries = [(''roll'', Some ''1001 ''), (''marks'', Some ''81'')], surplus = None\<rparr>])"
  by (simp add: no_name_def reader_eval)

lemma load_no_roll:
  "load_students no_roll =
     (no_roll, Inr [\<lparr>entries = [(''name'', Some ''Al''), (''marks'', Some ''5'')], surplus = None\<rparr>])"
  by (simp add: no_roll_def reader_eval)

text \<open>
  C2.  The statistics are meant to count marks that do not parse as 0.0 and to complete.
  The first loop does so; the comprehension that selects the toppers converts the marks
  again without a guard.  On a store whose only record has the marks \<^verbatim>\<open>abc\<close> the
  operation ends with \<^verbatim>\<open>ValueError\<close> and reports nothing.
\<close>

theorem topper_and_average_unparseable:
  "topper_and_average \<lparr>content = Some (csv_text [asha\<lparr>marks := ''abc''\<rparr>]), writes = 0\<rparr> =
     (\<lparr>content = Some (csv_text [asha\<lparr>marks := ''abc''\<rparr>]), writes = 0\<rparr>, [], Some ValueError)"
proof -
  have "list_all fits [asha\<lparr>marks := ''abc''\<rparr>]"
    by (simp add: fits_def asha_def field_limit_def)
  then show ?thesis
    by (simp add: topper_and_average_def load_saved py_float_abc asha_def dict_of_def
        marks_again_def)
qed

lemma strip_plain [simp]:
  "strip ''Bo'' = ''Bo''" "strip ''101'' = ''101''" "strip ''100'' = ''100''"
  "strip ''1001'' = ''1001''" "strip '' y'' = ''y''" "strip ''0'' = ''0''"
  "strip ''nan'' = ''nan''" "strip [] = []" "strip ''y'' = ''y''" "strip ''Zed'' = ''Zed''"
  "strip ''1001 '' = ''1001''" "strip ''7'' = ''7''" "strip ''8'' = ''8''"
  by (simp_all add: strip_def py_isspace_def)

lemma getitem_dict_of [simp]:
  "getitem (dict_of s) ''roll'' = Inr (Some (roll s))"
  "getitem (dict_of s) ''name'' = Inr (Some (name s))"
  "getitem (dict_of s) ''marks'' = Inr (Some (marks s))"
  by (simp_all add: getitem_def dict_of_def)

lemma roll_stripped_dict_of [simp]: "roll_stripped (dict_of s) = Inr (strip (roll s))"
  by (simp add: roll_stripped_def)

lemma asha_sel [simp]: "roll asha = ''1001''" "name asha = ''Asha''" "marks asha = ''70''"
  by (simp_all add: asha_def)

lemma load_asha:
  "load_students \<lparr>content = Some (csv_text [asha]), writes = 0\<rparr> =
     (\<lparr>content = Some (csv_text [asha]), writes = 0\<rparr>, Inr [dict_of asha])"
  using fits_asha load_saved [of "[asha]" 0] by simp

text \<open>
  C3.  An edit whose new marks are not a number in the range 0 to 100 is meant to abort
  without a write.  The range check is two comparisons, both false for NaN: editing roll
  1001 with the marks \<^verbatim>\<open>nan\<close> rewrites the store with the marks \<^verbatim>\<open>nan\<close>.
\<close>

theorem edit_student_nan:
  "edit_student fstr \<lparr>content = Some (csv_text [asha]), writes = 0\<rparr> ''1001'' [] ''nan'' =
     (\<lparr>content = Some (csv_text [asha\<lparr>marks := ''nan''\<rparr>]), writes = 1\<rparr>,
      [''Editing Asha (Roll 1001)'', ''Student updated and saved.''], None)"
proof -
  have m: "marks_string fstr ''nan'' = Some ''nan''"
    by (simp add: marks_string_def py_float_nan fgt_def)
  have u: "setitem (setitem (dict_of asha) ''name'' (Some ''Asha'')) ''marks'' (Some ''nan'')
           = dict_of (asha\<lparr>marks := ''nan''\<rparr>)"
    by (simp add: setitem_def dict_of_def)
  have s: "save_students [dict_of (asha\<lparr>marks := ''nan''\<rparr>)]
             \<lparr>content = Some (csv_text [asha]), writes = 0\<rparr> =
           (\<lparr>content = Some (csv_text [asha\<lparr>marks := ''nan''\<rparr>]), writes = 1\<rparr>, None)"
    using save_students_dict_of [of "[asha\<lparr>marks := ''nan''\<rparr>]"]
    by (simp add: write_file_def)
  show ?thesis
    by (simp add: edit_student_def load_asha m u s)
qed

lemma generate_roll_asha: "generate_roll [dict_of asha] = Inr ''1002''"
  unfolding asha_def dict_of_def by code_simp

lemma generate_roll_four:
  "generate_roll [dict_of asha, al_four, dict_of \<lparr>roll = ''8'', name = ''Bo'', marks = ''6''\<rparr>]
     = Inr ''1002''"
  unfolding asha_def dict_of_def al_four_def by code_simp

lemma wrong_fields_al_four: "wrong_fields al_four"
  by (simp add: wrong_fields_def al_four_def)

lemma save_students_plain:
  "\<not> list_ex wrong_fields ds \<Longrightarrow>
   save_students ds fs = (write_file (writerow FIELDNAMES @ rows_text ds) fs, None)"
  by (simp add: save_students_def write_rows_plain)

lemma save_students_stops:
  "\<not> list_ex wrong_fields ds \<Longrightarrow> wrong_fields d \<Longrightarrow>
   save_students (ds @ d # es) fs =
     (write_file (writerow FIELDNAMES @ rows_text ds) fs, Some ValueError)"
  by (simp add: save_students_def write_rows_append)

lemma rows_text_append: "rows_text (ds @ es) = rows_text ds @ rows_text es"
  by (simp add: rows_text_def)

lemma rows_text_single: "rows_text [dict_of s] = writerow [roll s, name s, marks s]"
  by (simp add: rows_text_def row_of_def)

text \<open>
  On a store that holds a row of four fields, Add with the marks 100 passes the
  validation and then fails in \<^verbatim>\<open>save_students\<close>: the file is left with the header and
  the rows before the long one, and no row is appended.
\<close>

theorem add_student_counterexample:
  "add_student no_repr four_fields ''Zed'' ''100'' =
     (\<lparr>content = Some (writerow FIELDNAMES @ writerow [''1001'', ''Asha'', ''70'']), writes = 1\<rparr>,
      [LF # ''Generated Roll Number: 1002''], Some ValueError)"
proof -
  have m: "marks_string no_repr ''100'' = Some ''100''"
    by (simp add: marks_string_def py_float_100 fgt_def str_int_100)
  have s: "save_students
             ([dict_of asha] @ al_four
                # [dict_of \<lparr>roll = ''8'', name = ''Bo'', marks = ''6''\<rparr>,
                   dict_of \<lparr>roll = ''1002'', name = ''Zed'', marks = ''100''\<rparr>]) four_fields =
           (write_file (writerow FIELDNAMES @ rows_text [dict_of asha]) four_fields,
            Some ValueError)"
    by (rule save_students_stops) (simp_all add: wrong_fields_al_four)
  show ?thesis
    using s
    by (simp add: add_student_def load_four_fields generate_roll_four m rows_text_single
        write_file_def)
qed

text \<open>
  C4.  On every store, Add performs no write and reports the rejection when the trimmed
  name is empty, or the trimmed marks do not parse as a number, or they parse to a value
  strictly below 0 or strictly above 100 (so \<^verbatim>\<open>101\<close> appends no row).  Marks that parse
  to 0 or to 100 pass the validation on every store: the record with the generated roll
  is appended to the list and the list is handed to \<^verbatim>\<open>save_students\<close>; when no record
  of the store has a field beyond roll, name and marks, the file then holds the rows of
  the store followed by the new row.
\<close>

theorem add_student_validation:
  assumes "load_students fs = (fs, Inr students)"
  shows "(strip name_in = [] \<or> py_float (strip marks_in) = None
          \<or> (\<exists>m. py_float (strip marks_in) = Some m \<and> (flt m (Fin 0) \<or> fgt m (Fin 100)))
          \<longrightarrow> fst (add_student fstr fs name_in marks_in) = fs
              \<and> (case generate_roll students of
                    Inl e \<Rightarrow> snd (add_student fstr fs name_in marks_in) = ([], Some e)
                  | Inr g \<Rightarrow> snd (add_student fstr fs name_in marks_in) =
                      ([LF # ''Generated Roll Number: '' @ g,
                        if strip name_in = [] then name_empty_msg else invalid_marks_msg], None)))
       \<and> (\<forall>g k. generate_roll students = Inr g \<and> strip name_in \<noteq> []
            \<and> py_float (strip marks_in) = Some (Fin (of_int k)) \<and> (k = 0 \<or> k = 100)
          \<longrightarrow> add_student fstr fs name_in marks_in =
                (fst (save_students
                        (students @ [dict_of \<lparr>roll = g, name = strip name_in, marks = str_int k\<rparr>])
                        fs),
                 (LF # ''Generated Roll Number: '' @ g)
                 # (if snd (save_students
                             (students
                              @ [dict_of \<lparr>roll = g, name = strip name_in, marks = str_int k\<rparr>])
                             fs) = None
                    then [''Student added successfully with Roll '' @ g @ ''.''] else []),
                 snd (save_students
                        (students @ [dict_of \<lparr>roll = g, name = strip name_in, marks = str_int k\<rparr>])
                        fs))
              \<and> (\<not> list_ex wrong_fields students
                  \<longrightarrow> add_student fstr fs name_in marks_in =
                        (write_file (writerow FIELDNAMES @ rows_text students
                                     @ writerow [g, strip name_in, str_int k]) fs,
                         [LF # ''Generated Roll Number: '' @ g,
                          ''Student added successfully with Roll '' @ g @ ''.''],
                         None)))"
proof (intro conjI impI allI)
  assume "strip name_in = [] \<or> py_float (strip marks_in) = None
          \<or> (\<exists>m. py_float (strip marks_in) = Some m \<and> (flt m (Fin 0) \<or> fgt m (Fin 100)))"
  then have rej: "strip name_in \<noteq> [] \<Longrightarrow> marks_string fstr (strip marks_in) = None"
    by (auto simp: marks_string_def)
  show "fst (add_student fstr fs name_in marks_in) = fs"
    using assms rej by (auto simp: add_student_def Let_def split: sum.splits)
  show "case generate_roll students of
          Inl e \<Rightarrow> snd (add_student fstr fs name_in marks_in) = ([], Some e)
        | Inr g \<Rightarrow> snd (add_student fstr fs name_in marks_in) =
            ([LF # ''Generated Roll Number: '' @ g,
              if strip name_in = [] then name_empty_msg else invalid_marks_msg], None)"
    using assms rej
    by (auto simp: add_student_def Let_def name_empty_msg_def invalid_marks_msg_def
        split: sum.splits)
next
  fix g k
  assume a: "generate_roll students = Inr g \<and> strip name_in \<noteq> []
            \<and> py_float (strip marks_in) = Some (Fin (of_int k)) \<and> (k = 0 \<or> k = 100)"
  then have m: "marks_string fstr (strip marks_in) = Some (str_int k)"
    by (auto simp: marks_string_def fgt_def)
  let ?new = "dict_of \<lparr>roll = g, name = strip name_in, marks = str_int k\<rparr>"
  from a assms m show "add_student fstr fs name_in marks_in =
      (fst (save_students (students @ [?new]) fs),
       (LF # ''Generated Roll Number: '' @ g)
       # (if snd (save_students (students @ [?new]) fs) = None
          then [''Student added successfully with Roll '' @ g @ ''.''] else []),
       snd (save_students (students @ [?new]) fs))"
    by (cases "save_students (students @ [?new]) fs")
       (auto simp: add_student_def split: option.splits)
  assume p: "\<not> list_ex wrong_fields students"
  then have "\<not> list_ex wrong_fields (students @ [?new])" by simp
  then have "save_students (students @ [?new]) fs =
     (write_file (writerow FIELDNAMES @ rows_text (students @ [?new])) fs, None)"
    by (rule save_students_plain)
  with a assms m show "add_student fstr fs name_in marks_in =
      (write_file (writerow FIELDNAMES @ rows_text students
                   @ writerow [g, strip name_in, str_int k]) fs,
       [LF # ''Generated Roll Number: '' @ g,
        ''Student added successfully with Roll '' @ g @ ''.''],
       None)"
    by (simp add: add_student_def rows_text_append rows_text_single)
qed

theorem add_student_validation_witness:
  "load_students \<lparr>content = Some (csv_text [asha]), writes = 0\<rparr> =
     (\<lparr>content = Some (csv_text [asha]), writes = 0\<rparr>, Inr [dict_of asha])
   \<and> py_float (strip ''101'') = Some (Fin 101) \<and> fgt (Fin 101) (Fin 100)
   \<and> fst (add_student no_repr \<lparr>content = Some (csv_text [asha]), writes = 0\<rparr> ''Bo'' ''101'')
       = \<lparr>content = Some (csv_text [asha]), writes = 0\<rparr>
   \<and> generate_roll [dict_of asha] = Inr ''1002'' \<and> strip ''Bo'' \<noteq> []
   \<and> py_float (strip ''100'') = Some (Fin (of_int 100))
   \<and> \<not> list_ex wrong_fields [dict_of asha]
   \<and> add_student no_repr \<lparr>content = Some (csv_text [asha]), writes = 0\<rparr> ''Bo'' ''100'' =
       (\<lparr>content = Some (csv_text [asha, \<lparr>roll = ''1002'', name = ''Bo'', marks = ''100''\<rparr>]),
         writes = 1\<rparr>,
        [LF # ''Generated Roll Number: 1002'', ''Student added successfully with Roll 1002.''],
        None)"
proof -
  let ?fs = "\<lparr>content = Some (csv_text [asha]), writes = 0\<rparr>"
  note t = add_student_validation [OF load_asha, of _ _ no_repr]
  have r: "fst (add_student no_repr ?fs ''Bo'' ''101'') = ?fs"
    using t [of "''Bo''" "''101''"] by (simp add: py_float_101 fgt_def)
  have pre: "generate_roll [dict_of asha] = Inr ''1002'' \<and> strip ''Bo'' \<noteq> []
       \<and> py_float (strip ''100'') = Some (Fin (of_int 100)) \<and> ((100 :: int) = 0 \<or> (100 :: int) = 100)"
    by (simp add: py_float_100 generate_roll_asha)
  have np: "\<not> list_ex wrong_fields [dict_of asha]" by simp
  from t [of "''Bo''" "''100''"] pre np
  have "add_student no_repr ?fs ''Bo'' ''100'' =
       (write_file (writerow FIELDNAMES @ rows_text [dict_of asha]
                    @ writerow [''1002'', strip ''Bo'', str_int 100]) ?fs,
        [LF # ''Generated Roll Number: '' @ ''1002'',
         ''Student added successfully with Roll '' @ ''1002'' @ ''.''],
        None)"
    by blast
  then have a: "add_student no_repr ?fs ''Bo'' ''100'' =
       (\<lparr>content = Some (csv_text [asha, \<lparr>roll = ''1002'', name = ''Bo'', marks = ''100''\<rparr>]),
         writes = 1\<rparr>,
        [LF # ''Generated Roll Number: 1002'', ''Student added successfully with Roll 1002.''],
        None)"
    by (simp add: write_file_def csv_text_def rows_text_single row_of_def str_int_100)
  show ?thesis
    using load_asha r a by (simp add: py_float_101 py_float_100 fgt_def generate_roll_asha)
qed

text \<open>The part of C3 that the program does keep: marks that do not parse, or parse
  strictly below 0 or above 100, abort the edit before anything is written.\<close>

lemma edit_student_aborts:
  assumes "load_students fs = (fs, Inr students)" and "strip marks_in \<noteq> []"
    and "py_float (strip marks_in) = None
         \<or> (\<exists>m. py_float (strip marks_in) = Some m \<and> (flt m (Fin 0) \<or> fgt m (Fin 100)))"
  shows "fst (edit_student fstr fs roll_in name_in marks_in) = fs"
proof -
  from assms(3) have "marks_string fstr (strip marks_in) = None"
    by (auto simp: marks_string_def)
  with assms(1,2) show ?thesis
    by (auto simp: edit_student_def Let_def split: option.splits sum.splits)
qed

section \<open>Loading, then saving\<close>

lemma parse_process_char_ok:
  "reader_ok rd \<Longrightarrow> parse_process_char rd c = Inr rd' \<Longrightarrow> reader_ok rd'"
  by (cases "state rd")
    (auto simp: parse_process_char.simps start_field.simps reader_ok_def parse_add_char_def
      parse_save_field_def end_of_field_def split: if_splits)

lemma feed_chars_ok: "reader_ok rd \<Longrightarrow> feed_chars rd l = Inr rd' \<Longrightarrow> reader_ok rd'"
proof (induction l arbitrary: rd)
  case Nil
  then show ?case using parse_process_char_ok by simp
next
  case (Cons c l)
  then show ?case
    by (cases "parse_process_char rd (Some c)") (auto dest: parse_process_char_ok)
qed

lemma parse_reset_ok: "reader_ok parse_reset"
  by (simp add: reader_ok_def parse_reset_def)

lemma read_rows_ok:
  "reader_ok rd \<Longrightarrow> read_rows rd ls = Inr rows \<Longrightarrow>
   \<forall>r \<in> set rows. \<forall>f \<in> set r. length f \<le> field_limit"
proof (induction ls arbitrary: rd rows)
  case Nil
  then show ?case by (auto simp: reader_ok_def split: if_splits)
next
  case (Cons l ls)
  show ?case
  proof (cases "feed_chars rd l")
    case (Inl e)
    with Cons.prems show ?thesis by simp
  next
    case (Inr rd')
    with Cons.prems have ok': "reader_ok rd'" using feed_chars_ok by blast
    show ?thesis
    proof (cases "state rd' = START_RECORD")
      case True
      with Inr Cons.prems obtain rest where rest: "read_rows parse_reset ls = Inr rest"
        and rows: "rows = rfields rd' # rest"
        by (cases "read_rows parse_reset ls") auto
      from Cons.IH [OF parse_reset_ok rest] ok' rows show ?thesis
        by (auto simp: reader_ok_def)
    next
      case False
      with Inr Cons.prems have "read_rows rd' ls = Inr rows" by simp
      from Cons.IH [OF ok' this] show ?thesis .
    qed
  qed
qed

lemma map_of_zip_fold:
  assumes "map_of (foldl (\<lambda>d (k, v). AList.update k (Some v) d) d kvs) k = Some (Some v)"
    and "\<And>k v. map_of d k = Some (Some v) \<Longrightarrow> P v"
    and "\<forall>kv \<in> set kvs. P (snd kv)"
  shows "P v"
  using assms
proof (induction kvs arbitrary: d)
  case Nil
  then show ?case by simp
next
  case (Cons kv kvs)
  obtain k' v' where kv: "kv = (k', v')" by (cases kv)
  show ?case
  proof (rule Cons.IH [of "AList.update k' (Some v') d"])
    show "map_of (foldl (\<lambda>d (k, v). AList.update k (Some v) d) (AList.update k' (Some v') d) kvs) k
          = Some (Some v)"
      using Cons.prems(1) kv by simp
    show "\<forall>kv \<in> set kvs. P (snd kv)" using Cons.prems(3) by simp
    fix k v
    assume "map_of (AList.update k' (Some v') d) k = Some (Some v)"
    then show "P v"
      using Cons.prems(2) [of k v] Cons.prems(3) kv
      by (auto simp: update_conv' split: if_splits)
  qed
qed

lemma map_of_none_fold:
  "map_of (foldl (\<lambda>d k. AList.update k None d) d ks) k = Some (Some v) \<Longrightarrow>
   map_of d k = Some (Some v)"
proof (induction ks arbitrary: d)
  case Nil
  then show ?case by simp
next
  case (Cons k' ks)
  from Cons.IH [of "AList.update k' None d"] Cons.prems
  have "map_of (AList.update k' None d) k = Some (Some v)" by simp
  then show ?case by (auto simp: update_conv' split: if_splits)
qed

lemma dict_row_values:
  assumes "map_of (entries (dict_row fieldnames row)) k = Some (Some v)"
    and "\<forall>f \<in> set row. length f \<le> field_limit"
  shows "length v \<le> field_limit"
proof -
  from assms(1) have "map_of (zip_dict fieldnames row) k = Some (Some v)"
    by (auto simp: dict_row_def Let_def split: if_splits dest: map_of_none_fold)
  then show ?thesis
    unfolding zip_dict_def
  proof (rule map_of_zip_fold)
    show "\<forall>kv \<in> set (zip fieldnames row). length (snd kv) \<le> field_limit"
      using assms(2) by (auto dest: set_zip_rightD)
  qed simp
qed

lemma dict_row_fits:
  assumes "dict_row fieldnames row = dict_of s" and "\<forall>f \<in> set row. length f \<le> field_limit"
  shows "fits s"
proof -
  have "map_of (entries (dict_of s)) ''roll'' = Some (Some (roll s))"
    "map_of (entries (dict_of s)) ''name'' = Some (Some (name s))"
    "map_of (entries (dict_of s)) ''marks'' = Some (Some (marks s))"
    by (simp_all add: dict_of_def)
  then show ?thesis
    unfolding assms(1) [symmetric] fits_def using assms(2) by (blast dest: dict_row_values)
qed

lemma dict_reader_fits_mem:
  assumes "dict_reader text = Inr ds" and "dict_of x \<in> set ds"
  shows "fits x"
proof (cases "csv_reader text")
  case (Inl e)
  with assms show ?thesis by (simp add: dict_reader_def)
next
  case (Inr rows)
  then have ok: "\<forall>r \<in> set rows. \<forall>f \<in> set r. length f \<le> field_limit"
    using read_rows_ok [OF parse_reset_ok] by (simp add: csv_reader_def)
  show ?thesis
  proof (cases rows)
    case Nil
    with assms Inr show ?thesis by (simp add: dict_reader_def)
  next
    case (Cons fieldnames rs)
    with assms Inr
    have "dict_of x \<in> set (map (dict_row fieldnames) (filter (\<lambda>row. row \<noteq> []) rs))"
      by (auto simp: dict_reader_def)
    then obtain row where "row \<in> set rs" and "dict_row fieldnames row = dict_of x" by auto
    with ok Cons show ?thesis using dict_row_fits by auto
  qed
qed

lemma load_students_fits_mem:
  "load_students fs = (fs1, Inr ds) \<Longrightarrow> dict_of x \<in> set ds \<Longrightarrow> fits x"
  by (auto simp: load_students_def Let_def dest: dict_reader_fits_mem)

lemma load_students_fits:
  assumes "load_students fs = (fs1, Inr (map dict_of xs))"
  shows "list_all fits xs"
proof -
  have "fits x" if "x \<in> set xs" for x
  proof -
    from that have "dict_of x \<in> set (map dict_of xs)" by simp
    with assms show ?thesis by (rule load_students_fits_mem)
  qed
  then show ?thesis by (simp add: list_all_iff)
qed

lemma load_unix_file:
  "load_students \<lparr>content = Some (''roll,name,marks'' @ [LF] @ ''7,Al,50'' @ [LF, LF]), writes = 0\<rparr> =
     (\<lparr>content = Some (''roll,name,marks'' @ [LF] @ ''7,Al,50'' @ [LF, LF]), writes = 0\<rparr>,
      Inr (map dict_of [\<lparr>roll = ''7'', name = ''Al'', marks = ''50''\<rparr>]))"
  by (simp add: reader_eval dict_of_def)

text \<open>
  C7.  For every well-formed store, a file whose rows load as records of a roll, a name
  and marks, saving what was loaded raises nothing, and loading again yields the same
  records, with the same fields, in the same order.
\<close>

theorem save_loaded:
  "load_students fs = (fs1, Inr (map dict_of students)) \<Longrightarrow>
   snd (save_students (map dict_of students) fs1) = None
   \<and> load_students (fst (save_students (map dict_of students) fs1)) =
       (fst (save_students (map dict_of students) fs1), Inr (map dict_of students))"
  by (simp add: save_students_dict_of write_file_def load_saved load_students_fits)

theorem save_loaded_witness:
  "load_students \<lparr>content = Some (''roll,name,marks'' @ [LF] @ ''7,Al,50'' @ [LF, LF]), writes = 0\<rparr> =
     (\<lparr>content = Some (''roll,name,marks'' @ [LF] @ ''7,Al,50'' @ [LF, LF]), writes = 0\<rparr>,
      Inr (map dict_of [\<lparr>roll = ''7'', name = ''Al'', marks = ''50''\<rparr>]))
   \<and> snd (load_students (fst (save_students
            (map dict_of [\<lparr>roll = ''7'', name = ''Al'', marks = ''50''\<rparr>])
            \<lparr>content = Some (''roll,name,marks'' @ [LF] @ ''7,Al,50'' @ [LF, LF]), writes = 0\<rparr>)))
     = Inr (map dict_of [\<lparr>roll = ''7'', name = ''Al'', marks = ''50''\<rparr>])"
  using load_unix_file save_loaded [OF load_unix_file] by simp

section \<open>Delete\<close>

lemma strip_idem: "strip (strip s) = strip s"
proof (cases "strip s = []")
  case True
  have "strip [] = []" by (simp add: strip_def)
  with True show ?thesis by simp
next
  case False
  define u where "u = dropWhile py_isspace s"
  define v where "v = dropWhile py_isspace (rev u)"
  have t: "strip s = rev v" by (simp add: strip_def u_def v_def)
  with False have v: "v \<noteq> []" by simp
  then have "\<not> py_isspace (hd v)" unfolding v_def by (rule hd_dropWhile)
  then have l: "\<not> py_isspace (last (rev v))" using v by (simp add: last_rev)
  from v have u: "u \<noteq> []" by (auto simp: v_def)
  then have hu: "\<not> py_isspace (hd u)" unfolding u_def by (rule hd_dropWhile)
  obtain w where "rev u = w @ v"
    unfolding v_def by (metis takeWhile_dropWhile_id)
  with v have "last v = last (rev u)" by simp
  with u have "last v = hd u" by (simp add: last_rev)
  with hu v have h: "\<not> py_isspace (hd (rev v))" by (simp add: hd_rev)
  have "strip (rev v) = rev v"
    unfolding strip_def by (rule strip_ends_id) (use h l in simp)
  then show ?thesis unfolding t .
qed

lemma find_by_roll_Some:
  "find_by_roll students r = Inr (Some s) \<Longrightarrow> s \<in> set students \<and> roll_stripped s = Inr (strip r)"
  by (induction students) (auto split: sum.splits if_splits)

lemma find_by_roll_no_match:
  "\<forall>s \<in> set students. roll_stripped s \<noteq> Inr (strip r) \<Longrightarrow>
   find_by_roll students r \<noteq> Inr (Some found)"
  using find_by_roll_Some by blast

lemma named_roll: "named s \<Longrightarrow> roll_stripped s = Inr (strip (str_field s ''roll''))"
  by (auto simp: named_def has_str_def roll_stripped_def getitem_def str_field_def
      split: option.splits)

lemma named_name: "named s \<Longrightarrow> \<exists>n. getitem s ''name'' = Inr n"
  by (auto simp: named_def getitem_def)

lemma find_by_roll_named:
  "list_all named students \<Longrightarrow>
   find_by_roll students r = Inr (List.find (\<lambda>s. roll_stripped s = Inr (strip r)) students)"
  by (induction students) (auto simp: named_roll)

lemma without_roll_named:
  "list_all named students \<Longrightarrow>
   without_roll students r = Inr (filter (\<lambda>s. roll_stripped s \<noteq> Inr r) students)"
  by (induction students) (auto simp: named_roll)

lemma delete_student_no_write:
  assumes "load_students fs = (fs, Inr students)"
    and "strip roll_in = [] \<or> (\<forall>found. find_by_roll students (strip roll_in) \<noteq> Inr (Some found))
         \<or> lower (strip confirm_in) \<noteq> ''y''"
  shows "fst (delete_student fs roll_in confirm_in) = fs"
  using assms by (auto simp: delete_student_def Let_def split: option.splits sum.splits)

lemma delete_student_saves:
  assumes "load_students fs = (fs, Inr students)" and "list_all named students"
    and "strip roll_in \<noteq> []" and "\<exists>s \<in> set students. roll_stripped s = Inr (strip roll_in)"
    and "lower (strip confirm_in) = ''y''"
  shows "delete_student fs roll_in confirm_in =
     (case save_students (filter (\<lambda>s. roll_stripped s \<noteq> Inr (strip roll_in)) students) fs of
        (fs2, e) \<Rightarrow> (fs2, if e = None then [''Student deleted and changes saved.''] else [], e))"
proof -
  from assms(4) obtain found
    where f: "List.find (\<lambda>s. roll_stripped s = Inr (strip roll_in)) students = Some found"
    by (cases "List.find (\<lambda>s. roll_stripped s = Inr (strip roll_in)) students")
       (auto simp: find_None_iff)
  then have "found \<in> set students" by (auto simp: find_Some_iff)
  with assms(2) have "named found" by (simp add: list_all_iff)
  then obtain n where n: "getitem found ''name'' = Inr n" using named_name by blast
  show ?thesis
    using assms(1,3,5) f n
    by (auto simp: delete_student_def find_by_roll_named [OF assms(2)] strip_idem
        without_roll_named [OF assms(2)] split: option.splits prod.splits)
qed

text \<open>
  C5, as stated, fails in two ways.  Any confirmation other than \<^verbatim>\<open>y\<close> or \<^verbatim>\<open>Y\<close> is to
  leave the store unchanged: the program trims the response before it compares, so a
  \<^verbatim>\<open>y\<close> behind a blank still deletes.  On confirmation the remaining records are to be
  persisted: on a store with a row of four fields \<^verbatim>\<open>save_students\<close> empties the file,
  writes the header and raises at the long row, which is lost with the rows after it;
  and under a header without a name column the confirmation prompt raises, and the
  record stays.
\<close>

theorem delete_student_counterexample:
  "'' y'' \<noteq> ''y'' \<and> '' y'' \<noteq> ''Y''
   \<and> delete_student \<lparr>content = Some (csv_text [asha]), writes = 0\<rparr> ''1001'' '' y'' =
       (\<lparr>content = Some (csv_text []), writes = 1\<rparr>, [''Student deleted and changes saved.''], None)
   \<and> delete_student four_fields ''1001'' ''y'' =
       (\<lparr>content = Some (writerow FIELDNAMES), writes = 1\<rparr>, [], Some ValueError)
   \<and> delete_student no_name ''1001'' ''y'' = (no_name, [], Some KeyError)"
proof -
  have l: "lower ''y'' = ''y''" by code_simp
  have s: "save_students (map dict_of []) \<lparr>content = Some (csv_text [asha]), writes = 0\<rparr> =
           (\<lparr>content = Some (csv_text []), writes = 1\<rparr>, None)"
    by (simp only: save_students_dict_of) (simp add: write_file_def)
  have 1: "delete_student \<lparr>content = Some (csv_text [asha]), writes = 0\<rparr> ''1001'' '' y'' =
       (\<lparr>content = Some (csv_text []), writes = 1\<rparr>, [''Student deleted and changes saved.''], None)"
    using s by (simp add: delete_student_def load_asha l)
  have w: "save_students ([] @ al_four # [dict_of \<lparr>roll = ''8'', name = ''Bo'', marks = ''6''\<rparr>])
             four_fields =
           (write_file (writerow FIELDNAMES @ rows_text []) four_fields, Some ValueError)"
    by (rule save_students_stops) (simp_all add: wrong_fields_al_four)
  have r: "roll_stripped al_four = Inr ''7''"
    by (simp add: roll_stripped_def getitem_def al_four_def)
  have n: "getitem al_four ''name'' = Inr (Some ''Al'')"
    by (simp add: getitem_def al_four_def)
  have 2: "delete_student four_fields ''1001'' ''y'' =
       (\<lparr>content = Some (writerow FIELDNAMES), writes = 1\<rparr>, [], Some ValueError)"
    using w by (simp add: delete_student_def load_four_fields l r n write_file_def rows_text_def)
  have 3: "delete_student no_name ''1001'' ''y'' = (no_name, [], Some KeyError)"
    by (simp add: delete_student_def load_no_name l roll_stripped_def getitem_def)
  from 1 2 3 show ?thesis by simp
qed

text \<open>
  C5, amended.  On every store Delete writes nothing when the trimmed roll is empty,
  when no record's trimmed roll equals it, or when the confirmation, trimmed and
  lowercased, is not \<^verbatim>\<open>y\<close>.  On a confirmed delete in a store whose records each have
  a roll and a name field, the records whose trimmed roll differs from the trimmed
  input, in their original order, are handed to \<^verbatim>\<open>save_students\<close>; when none of them
  has a field beyond roll, name and marks the file then holds exactly their rows, and
  when each of them has exactly these three fields the store loads as exactly these
  records.
\<close>

theorem delete_student_spec:
  assumes "load_students fs = (fs, Inr students)"
  shows "(strip roll_in = [] \<or> (\<forall>s \<in> set students. roll_stripped s \<noteq> Inr (strip roll_in))
          \<or> lower (strip confirm_in) \<noteq> ''y''
          \<longrightarrow> fst (delete_student fs roll_in confirm_in) = fs)
       \<and> (list_all named students \<and> strip roll_in \<noteq> []
          \<and> (\<exists>s \<in> set students. roll_stripped s = Inr (strip roll_in))
          \<and> lower (strip confirm_in) = ''y''
          \<longrightarrow> delete_student fs roll_in confirm_in =
                (fst (save_students
                        (filter (\<lambda>s. roll_stripped s \<noteq> Inr (strip roll_in)) students) fs),
                 if snd (save_students
                           (filter (\<lambda>s. roll_stripped s \<noteq> Inr (strip roll_in)) students) fs) = None
                 then [''Student deleted and changes saved.''] else [],
                 snd (save_students
                        (filter (\<lambda>s. roll_stripped s \<noteq> Inr (strip roll_in)) students) fs))
              \<and> (\<not> list_ex wrong_fields
                       (filter (\<lambda>s. roll_stripped s \<noteq> Inr (strip roll_in)) students)
                  \<longrightarrow> delete_student fs roll_in confirm_in =
                        (write_file
                           (writerow FIELDNAMES
                            @ rows_text
                                (filter (\<lambda>s. roll_stripped s \<noteq> Inr (strip roll_in)) students))
                           fs,
                         [''Student deleted and changes saved.''], None))
              \<and> (\<forall>kept. filter (\<lambda>s. roll_stripped s \<noteq> Inr (strip roll_in)) students
                          = map dict_of kept
                  \<longrightarrow> snd (load_students (fst (delete_student fs roll_in confirm_in)))
                        = Inr (map dict_of kept)))"
proof (intro conjI impI allI)
  assume "strip roll_in = [] \<or> (\<forall>s \<in> set students. roll_stripped s \<noteq> Inr (strip roll_in))
          \<or> lower (strip confirm_in) \<noteq> ''y''"
  then have "strip roll_in = []
          \<or> (\<forall>found. find_by_roll students (strip roll_in) \<noteq> Inr (Some found))
          \<or> lower (strip confirm_in) \<noteq> ''y''"
    using find_by_roll_no_match [of students "strip roll_in"] by (auto simp: strip_idem)
  with assms show "fst (delete_student fs roll_in confirm_in) = fs"
    by (rule delete_student_no_write)
next
  let ?kept = "filter (\<lambda>s. roll_stripped s \<noteq> Inr (strip roll_in)) students"
  assume a: "list_all named students \<and> strip roll_in \<noteq> []
          \<and> (\<exists>s \<in> set students. roll_stripped s = Inr (strip roll_in))
          \<and> lower (strip confirm_in) = ''y''"
  then have d: "delete_student fs roll_in confirm_in =
     (case save_students ?kept fs of
        (fs2, e) \<Rightarrow> (fs2, if e = None then [''Student deleted and changes saved.''] else [], e))"
    using delete_student_saves [OF assms] by blast
  then show "delete_student fs roll_in confirm_in =
      (fst (save_students ?kept fs),
       if snd (save_students ?kept fs) = None
       then [''Student deleted and changes saved.''] else [],
       snd (save_students ?kept fs))"
    by (simp add: case_prod_beta)
  {
    assume "\<not> list_ex wrong_fields ?kept"
    then have "save_students ?kept fs = (write_file (writerow FIELDNAMES @ rows_text ?kept) fs, None)"
      by (rule save_students_plain)
    with d show "delete_student fs roll_in confirm_in =
        (write_file (writerow FIELDNAMES @ rows_text ?kept) fs,
         [''Student deleted and changes saved.''], None)"
      by simp
  }
  fix kept
  assume k: "?kept = map dict_of kept"
  have "fits x" if "x \<in> set kept" for x
  proof -
    from that have "dict_of x \<in> set (map dict_of kept)" by simp
    then have "dict_of x \<in> set ?kept" by (simp only: k)
    then have "dict_of x \<in> set students" by simp
    with assms show ?thesis by (rule load_students_fits_mem)
  qed
  then have "list_all fits kept" by (simp add: list_all_iff)
  then show "snd (load_students (fst (delete_student fs roll_in confirm_in))) = Inr (map dict_of kept)"
    unfolding d k by (simp add: save_students_dict_of write_file_def load_saved)
qed

theorem delete_student_spec_witness:
  "load_students \<lparr>content = Some (csv_text [asha]), writes = 0\<rparr> =
     (\<lparr>content = Some (csv_text [asha]), writes = 0\<rparr>, Inr [dict_of asha])
   \<and> lower (strip ''n'') \<noteq> ''y''
   \<and> fst (delete_student \<lparr>content = Some (csv_text [asha]), writes = 0\<rparr> ''1001'' ''n'')
       = \<lparr>content = Some (csv_text [asha]), writes = 0\<rparr>
   \<and> list_all named [dict_of asha] \<and> strip '' 1001 '' \<noteq> []
   \<and> (\<exists>s \<in> set [dict_of asha]. roll_stripped s = Inr (strip '' 1001 ''))
   \<and> lower (strip '' Y'') = ''y''
   \<and> delete_student \<lparr>content = Some (csv_text [asha]), writes = 0\<rparr> '' 1001 '' '' Y'' =
       (\<lparr>content = Some (csv_text []), writes = 1\<rparr>, [''Student deleted and changes saved.''], None)
   \<and> snd (load_students
        (fst (delete_student \<lparr>content = Some (csv_text [asha]), writes = 0\<rparr> '' 1001 '' '' Y'')))
       = Inr []"
proof -
  let ?fs = "\<lparr>content = Some (csv_text [asha]), writes = 0\<rparr>"
  have n: "lower (strip ''n'') = ''n''" and y: "lower (strip '' Y'') = ''y''"
    and r: "strip '' 1001 '' = ''1001''"
    by code_simp+
  have nm: "list_all named [dict_of asha]"
    by (simp add: named_def has_str_def dict_of_def)
  note t = delete_student_spec [OF load_asha]
  have 1: "fst (delete_student ?fs ''1001'' ''n'') = ?fs"
    using t [of "''1001''" "''n''"] by (simp add: n)
  have pre: "list_all named [dict_of asha] \<and> strip '' 1001 '' \<noteq> []
          \<and> (\<exists>s \<in> set [dict_of asha]. roll_stripped s = Inr (strip '' 1001 ''))
          \<and> lower (strip '' Y'') = ''y''"
    using nm by (simp add: y r)
  have k: "filter (\<lambda>s. roll_stripped s \<noteq> Inr (strip '' 1001 '')) [dict_of asha] = []"
    by (simp add: r)
  let ?kept = "filter (\<lambda>s. roll_stripped s \<noteq> Inr (strip '' 1001 '')) [dict_of asha]"
  have 2: "delete_student ?fs '' 1001 '' '' Y'' =
        (write_file (writerow FIELDNAMES @ rows_text []) ?fs,
         [''Student deleted and changes saved.''], None)"
  proof -
    from t [of "'' 1001 ''" "'' Y''"] pre
    have "\<not> list_ex wrong_fields ?kept
          \<longrightarrow> delete_student ?fs '' 1001 '' '' Y'' =
                (write_file (writerow FIELDNAMES @ rows_text ?kept) ?fs,
                 [''Student deleted and changes saved.''], None)"
      by blast
    then show ?thesis unfolding k by simp
  qed
  have 3: "snd (load_students (fst (delete_student ?fs '' 1001 '' '' Y''))) = Inr (map dict_of [])"
  proof -
    from t [of "'' 1001 ''" "'' Y''"] pre
    have "\<forall>kept. ?kept = map dict_of kept
          \<longrightarrow> snd (load_students (fst (delete_student ?fs '' 1001 '' '' Y'')))
                = Inr (map dict_of kept)"
      by blast
    then have "?kept = map dict_of []
          \<longrightarrow> snd (load_students (fst (delete_student ?fs '' 1001 '' '' Y'')))
                = Inr (map dict_of [])"
      by blast
    then show ?thesis unfolding k by simp
  qed
  from 2 have 4: "delete_student ?fs '' 1001 '' '' Y'' =
       (\<lparr>content = Some (csv_text []), writes = 1\<rparr>, [''Student deleted and changes saved.''], None)"
    by (simp add: write_file_def csv_text_def rows_text_def)
  show ?thesis
    using load_asha 1 3 4 nm by (simp add: n y r)
qed

section \<open>Search, duplicate rolls and List\<close>

lemma bo_sel [simp]: "roll bo = ''1001 ''" "name bo = ''Bo''" "marks bo = ''81''"
  by (simp_all add: bo_def)

lemma load_asha_bo:
  "load_students \<lparr>content = Some (csv_text [asha, bo]), writes = 0\<rparr> =
     (\<lparr>content = Some (csv_text [asha, bo]), writes = 0\<rparr>, Inr [dict_of asha, dict_of bo])"
  using load_saved [of "[asha, bo]" 0] by (simp add: fits_def field_limit_def)

lemma py_in_sublist: "py_in q s \<longleftrightarrow> sublist q s"
  by (induction s) (auto simp: sublist_Cons_right)

lemma complete_getitem:
  assumes "complete s"
  shows "getitem s ''roll'' = Inr (Some (str_field s ''roll''))"
    and "getitem s ''name'' = Inr (Some (str_field s ''name''))"
    and "getitem s ''marks'' = Inr (Some (str_field s ''marks''))"
  using assms
  by (auto simp: complete_def has_str_def getitem_def str_field_def split: option.splits)

lemma complete_roll_stripped: "complete s \<Longrightarrow> roll_stripped s = Inr (strip (str_field s ''roll''))"
  by (simp add: roll_stripped_def complete_getitem)

lemma complete_dict_of [simp]: "complete (dict_of s)"
  by (simp add: complete_def has_str_def dict_of_def)

lemma str_field_dict_of [simp]:
  "str_field (dict_of s) ''roll'' = roll s" "str_field (dict_of s) ''name'' = name s"
  "str_field (dict_of s) ''marks'' = marks s"
  by (simp_all add: str_field_def dict_of_def)

lemma student_row_complete: "complete s \<Longrightarrow> student_row s = Inr (table_line s)"
  by (simp add: student_row_def complete_getitem table_line_def)

lemma print_rows_complete: "list_all complete ss \<Longrightarrow> print_rows ss = (map table_line ss, None)"
  by (induction ss) (simp_all add: student_row_complete)

lemma matches_complete:
  "complete s \<Longrightarrow>
   matches q s = Inr (sublist q (lower (str_field s ''roll'')) \<or> sublist q (lower (str_field s ''name'')))"
  by (simp add: matches_def complete_getitem py_in_sublist)

lemma search_results_complete:
  "list_all complete ss \<Longrightarrow>
   search_results q ss =
     Inr (filter (\<lambda>s. sublist q (lower (str_field s ''roll''))
                      \<or> sublist q (lower (str_field s ''name''))) ss)"
  by (induction ss) (simp_all add: matches_complete)

lemma search_student_no_write:
  "load_students fs = (fs, r) \<Longrightarrow> fst (search_student fs query_in) = fs"
  by (auto simp: search_student_def Let_def split: sum.splits prod.splits)

text \<open>
  C8, as stated, fails on stores with short rows.  A row of one field has no name: a
  query that does not occur in its roll makes the test on the name raise, where the
  claim expects the no-matches report.  A row of two fields has no marks: it is found
  by its name, and printing it raises after the heading.  Under a header without a roll
  column the first test raises.
\<close>

theorem search_student_counterexample:
  "search_student one_field ''x'' = (one_field, [], Some AttributeError)
   \<and> search_student two_fields ''al'' =
       (two_fields, (LF # ''Found 1 result(s):'') # table_header, Some TypeError)
   \<and> search_student no_roll ''al'' = (no_roll, [], Some KeyError)"
proof -
  have q: "lower (strip ''x'') = ''x''" "lower (strip ''al'') = ''al''" "lower ''7'' = ''7''"
    "lower ''Al'' = ''al''" "str_int 1 = ''1''"
    by code_simp+
  have i: "\<not> py_in ''x'' ''7''" "\<not> py_in ''al'' ''7''" "py_in ''al'' ''al''"
    by code_simp+
  have 1: "search_student one_field ''x'' = (one_field, [], Some AttributeError)"
    by (simp add: search_student_def load_one_field q i matches_def getitem_def al_one_def)
  have 2: "search_student two_fields ''al'' =
       (two_fields, (LF # ''Found 1 result(s):'') # table_header, Some TypeError)"
    by (simp add: search_student_def load_two_fields q i matches_def getitem_def al_two_def
        student_row_def)
  have 3: "search_student no_roll ''al'' = (no_roll, [], Some KeyError)"
    by (simp add: search_student_def load_no_roll q matches_def getitem_def)
  from 1 2 3 show ?thesis by simp
qed

text \<open>
  C8, amended.  Search writes nothing, on any store.  On a store whose records each
  have a roll, a name and marks, and for every query that is not empty after trimming,
  it reports exactly the records in which the trimmed, lowercased query occurs as a
  contiguous block of the lowercased roll or of the lowercased name, in store order;
  when there is none, its whole output is the no-matches line.
\<close>

theorem search_student_spec:
  assumes "load_students fs = (fs, Inr students)"
  shows "fst (search_student fs query_in) = fs
       \<and> (list_all complete students \<and> strip query_in \<noteq> []
          \<longrightarrow> search_student fs query_in =
                (fs,
                 (let q = lower (strip query_in);
                      results = filter (\<lambda>s. sublist q (lower (str_field s ''roll''))
                                            \<or> sublist q (lower (str_field s ''name''))) students
                  in if results = [] then [''No matching student records found.'']
                     else (LF # ''Found '' @ str_int (int (length results)) @ '' result(s):'')
                          # table_header @ map table_line results @ [[]]),
                 None))"
proof (intro conjI impI)
  show "fst (search_student fs query_in) = fs"
    using assms by (rule search_student_no_write)
  let ?q = "lower (strip query_in)"
  let ?results = "filter (\<lambda>s. sublist ?q (lower (str_field s ''roll''))
                              \<or> sublist ?q (lower (str_field s ''name''))) students"
  assume a: "list_all complete students \<and> strip query_in \<noteq> []"
  then have r: "search_results ?q students = Inr ?results"
    by (simp add: search_results_complete)
  from a have "list_all complete ?results" by (simp add: list_all_iff)
  then have p: "print_rows ?results = (map table_line ?results, None)"
    by (rule print_rows_complete)
  from a have ne: "?q \<noteq> []" by (simp add: lower_def)
  show "search_student fs query_in =
          (fs,
           (let q = lower (strip query_in);
                results = filter (\<lambda>s. sublist q (lower (str_field s ''roll''))
                                      \<or> sublist q (lower (str_field s ''name''))) students
            in if results = [] then [''No matching student records found.'']
               else (LF # ''Found '' @ str_int (int (length results)) @ '' result(s):'')
                    # table_header @ map table_line results @ [[]]),
           None)"
    using assms ne by (simp add: search_student_def Let_def r p del: filter.simps)
qed

theorem search_student_spec_witness:
  "load_students \<lparr>content = Some (csv_text [asha, bo]), writes = 0\<rparr> =
     (\<lparr>content = Some (csv_text [asha, bo]), writes = 0\<rparr>, Inr [dict_of asha, dict_of bo])
   \<and> list_all complete [dict_of asha, dict_of bo] \<and> strip '' SH'' \<noteq> []
   \<and> search_student \<lparr>content = Some (csv_text [asha, bo]), writes = 0\<rparr> '' SH'' =
       (\<lparr>content = Some (csv_text [asha, bo]), writes = 0\<rparr>,
        (LF # ''Found 1 result(s):'') # table_header @ [table_line (dict_of asha), []], None)"
proof -
  have q: "lower ''SH'' = ''sh''" and s: "strip '' SH'' = ''SH''"
    and n: "str_int 1 = ''1''"
    by code_simp+
  have l: "lower ''1001'' = ''1001''" "lower ''Asha'' = ''asha''" "lower ''1001 '' = ''1001 ''"
    "lower ''Bo'' = ''bo''"
    by code_simp+
  have i: "\<not> py_in ''sh'' ''1001''" "py_in ''sh'' ''asha''" "\<not> py_in ''sh'' ''1001 ''"
    "\<not> py_in ''sh'' ''bo''"
    by code_simp+
  have f: "filter (\<lambda>s. sublist ''sh'' (lower (str_field s ''roll''))
                      \<or> sublist ''sh'' (lower (str_field s ''name'')))
             [dict_of asha, dict_of bo] = [dict_of asha]"
    using i by (simp add: l py_in_sublist)
  have c: "list_all complete [dict_of asha, dict_of bo] \<and> strip '' SH'' \<noteq> []"
    by (simp add: s)
  from search_student_spec [OF load_asha_bo, of "'' SH''"] c
  have "search_student \<lparr>content = Some (csv_text [asha, bo]), writes = 0\<rparr> '' SH'' =
                (\<lparr>content = Some (csv_text [asha, bo]), writes = 0\<rparr>,
                 (let q = lower (strip '' SH'');
                      results = filter (\<lambda>s. sublist q (lower (str_field s ''roll''))
                                            \<or> sublist q (lower (str_field s ''name'')))
                                  [dict_of asha, dict_of bo]
                  in if results = [] then [''No matching student records found.'']
                     else (LF # ''Found '' @ str_int (int (length results)) @ '' result(s):'')
                          # table_header @ map table_line results @ [[]]),
                 None)"
    by blast
  then have "search_student \<lparr>content = Some (csv_text [asha, bo]), writes = 0\<rparr> '' SH'' =
       (\<lparr>content = Some (csv_text [asha, bo]), writes = 0\<rparr>,
        (LF # ''Found 1 result(s):'') # table_header @ [table_line (dict_of asha), []], None)"
    unfolding s q Let_def f by (simp add: n)
  then show ?thesis using load_asha_bo c by simp
qed

lemma complete_named: "complete s \<Longrightarrow> named s"
  by (auto simp: complete_def named_def has_str_def split: option.splits)

lemma find_by_roll_first:
  "list_all complete pre \<Longrightarrow> \<forall>x \<in> set pre. strip (str_field x ''roll'') \<noteq> strip r \<Longrightarrow>
   roll_stripped s = Inr (strip r) \<Longrightarrow> find_by_roll (pre @ s # post) r = Inr (Some s)"
  by (induction pre) (simp_all add: complete_roll_stripped)

lemma apply_update_first:
  "list_all complete pre \<Longrightarrow> \<forall>x \<in> set pre. strip (str_field x ''roll'') \<noteq> r \<Longrightarrow>
   roll_stripped s = Inr r \<Longrightarrow>
   apply_update (pre @ s # post) r n m =
     Inr (pre @ setitem (setitem s ''name'' n) ''marks'' m # post)"
  by (induction pre) (simp_all add: complete_roll_stripped)

lemma wrong_fields_setitem:
  "k \<in> set FIELDNAMES \<Longrightarrow> wrong_fields (setitem s k v) = wrong_fields s"
  by (auto simp: wrong_fields_def setitem_def update_keys list_ex_iff)

lemma wrong_fields_edited [simp]: "wrong_fields (edited s n m) = wrong_fields s"
  by (simp add: edited_def wrong_fields_setitem FIELDNAMES_def)

lemma load_dup_four:
  "load_students dup_four = (dup_four, Inr [al_four, dict_of asha, dict_of bo])"
  by (simp add: dup_four_def reader_eval dict_of_def asha_def bo_def al_four_def)

text \<open>
  C9, as stated, fails on stores whose rows do not have the fields roll, name and
  marks and no others.  With a row of four fields before two records of roll 1001, Edit
  of roll 1001 empties the file, writes the header and raises at the long row: no record
  is updated and all are lost.  Under a header without a name column, Edit raises at
  its first message and updates nothing.
\<close>

theorem edit_student_counterexample:
  "edit_student no_repr dup_four ''1001'' ''Zed'' [] =
     (\<lparr>content = Some (writerow FIELDNAMES), writes = 1\<rparr>, [''Editing Asha (Roll 1001)''],
      Some ValueError)
   \<and> edit_student no_repr no_name ''1001'' ''Zed'' [] = (no_name, [], Some KeyError)"
proof -
  have r: "roll_stripped al_four = Inr ''7''"
    by (simp add: roll_stripped_def getitem_def al_four_def)
  have w: "save_students
             ([] @ al_four
                # [setitem (setitem (dict_of asha) ''name'' (Some ''Zed'')) ''marks'' (Some ''70''),
                   dict_of bo]) dup_four =
           (write_file (writerow FIELDNAMES @ rows_text []) dup_four, Some ValueError)"
    by (rule save_students_stops) (simp_all add: wrong_fields_al_four)
  have 1: "edit_student no_repr dup_four ''1001'' ''Zed'' [] =
     (\<lparr>content = Some (writerow FIELDNAMES), writes = 1\<rparr>, [''Editing Asha (Roll 1001)''],
      Some ValueError)"
    using w by (simp add: edit_student_def load_dup_four r write_file_def rows_text_def)
  have 2: "edit_student no_repr no_name ''1001'' ''Zed'' [] = (no_name, [], Some KeyError)"
    by (simp add: edit_student_def load_no_name roll_stripped_def getitem_def)
  from 1 2 show ?thesis by simp
qed

text \<open>
  C9, amended.  In a store whose records each have a roll, a name and marks, when the
  trimmed input equals the trimmed roll of several records, Edit changes the name and
  the marks of the first of them in store order and leaves every other record as it is,
  while Delete removes all of them; the resulting list is what each operation hands to
  \<^verbatim>\<open>save_students\<close>, and when no record of the store has a field beyond roll, name and
  marks the file then holds exactly the rows of that list.
\<close>

theorem edit_first_delete_all:
  assumes "load_students fs = (fs, Inr (pre @ s # post))"
    and "list_all complete (pre @ s # post)"
    and "\<forall>x \<in> set pre. strip (str_field x ''roll'') \<noteq> strip roll_in"
    and "strip (str_field s ''roll'') = strip roll_in" and "strip roll_in \<noteq> []"
    and "(if strip marks_in = [] then Some (str_field s ''marks'')
          else marks_string fstr (strip marks_in)) = Some new_marks"
    and "new_name = (if strip name_in = [] then str_field s ''name'' else strip name_in)"
    and "lower (strip confirm_in) = ''y''"
    and "kept = pre @ filter (\<lambda>x. strip (str_field x ''roll'') \<noteq> strip roll_in) post"
  shows "edit_student fstr fs roll_in name_in marks_in =
           (fst (save_students (pre @ edited s new_name new_marks # post) fs),
            (''Editing '' @ str_field s ''name'' @ '' (Roll '' @ str_field s ''roll'' @ '')'')
            # (if snd (save_students (pre @ edited s new_name new_marks # post) fs) = None
               then [''Student updated and saved.''] else []),
            snd (save_students (pre @ edited s new_name new_marks # post) fs))
       \<and> delete_student fs roll_in confirm_in =
           (fst (save_students kept fs),
            if snd (save_students kept fs) = None
            then [''Student deleted and changes saved.''] else [],
            snd (save_students kept fs))
       \<and> (\<not> list_ex wrong_fields (pre @ s # post)
          \<longrightarrow> edit_student fstr fs roll_in name_in marks_in =
                (write_file
                   (writerow FIELDNAMES @ rows_text (pre @ edited s new_name new_marks # post)) fs,
                 [''Editing '' @ str_field s ''name'' @ '' (Roll '' @ str_field s ''roll'' @ '')'',
                  ''Student updated and saved.''],
                 None)
              \<and> delete_student fs roll_in confirm_in =
                  (write_file (writerow FIELDNAMES @ rows_text kept) fs,
                   [''Student deleted and changes saved.''], None))"
proof (intro conjI impI)
  from assms(2) have cp: "list_all complete pre" and cs: "complete s" by simp_all
  have rs: "roll_stripped s = Inr (strip roll_in)"
    using cs assms(4) by (simp add: complete_roll_stripped)
  have found: "find_by_roll (pre @ s # post) (strip roll_in) = Inr (Some s)"
    using cp assms(3) rs by (intro find_by_roll_first) (simp_all add: strip_idem)
  have upd: "apply_update (pre @ s # post) (strip roll_in) (Some new_name) (Some new_marks) =
               Inr (pre @ edited s new_name new_marks # post)"
    unfolding edited_def using cp assms(3) rs by (rule apply_update_first)
  show e: "edit_student fstr fs roll_in name_in marks_in =
           (fst (save_students (pre @ edited s new_name new_marks # post) fs),
            (''Editing '' @ str_field s ''name'' @ '' (Roll '' @ str_field s ''roll'' @ '')'')
            # (if snd (save_students (pre @ edited s new_name new_marks # post) fs) = None
               then [''Student updated and saved.''] else []),
            snd (save_students (pre @ edited s new_name new_marks # post) fs))"
  proof (cases "strip marks_in = []")
    case True
    with assms(6) have "new_marks = str_field s ''marks''" by simp
    with True assms(1,5,7) found upd show ?thesis
      by (cases "save_students (pre @ edited s new_name new_marks # post) fs")
         (auto simp: edit_student_def Let_def complete_getitem [OF cs] split: option.splits)
  next
    case False
    with assms(6) have "marks_string fstr (strip marks_in) = Some new_marks" by simp
    with False assms(1,5,7) found upd show ?thesis
      by (cases "save_students (pre @ edited s new_name new_marks # post) fs")
         (auto simp: edit_student_def Let_def complete_getitem [OF cs] split: option.splits)
  qed
  have nm: "list_all named (pre @ s # post)"
    using assms(2) by (auto simp: list_all_iff complete_named)
  have ex: "\<exists>x \<in> set (pre @ s # post). roll_stripped x = Inr (strip roll_in)"
    using rs by auto
  have "filter (\<lambda>x. roll_stripped x \<noteq> Inr (strip roll_in)) (pre @ s # post) =
        filter (\<lambda>x. strip (str_field x ''roll'') \<noteq> strip roll_in) (pre @ s # post)"
    using assms(2) by (intro filter_cong) (auto simp: list_all_iff complete_roll_stripped)
  also have "\<dots> = kept"
    using assms(3,4,9) by simp
  finally have k: "filter (\<lambda>x. roll_stripped x \<noteq> Inr (strip roll_in)) (pre @ s # post) = kept" .
  show d: "delete_student fs roll_in confirm_in =
           (fst (save_students kept fs),
            if snd (save_students kept fs) = None
            then [''Student deleted and changes saved.''] else [],
            snd (save_students kept fs))"
    using delete_student_saves [OF assms(1) nm assms(5) ex assms(8)] unfolding k
    by (simp add: case_prod_beta)
  assume p: "\<not> list_ex wrong_fields (pre @ s # post)"
  then have "\<not> list_ex wrong_fields (pre @ edited s new_name new_marks # post)" by simp
  then have "save_students (pre @ edited s new_name new_marks # post) fs =
                (write_file
                   (writerow FIELDNAMES @ rows_text (pre @ edited s new_name new_marks # post)) fs,
                 None)"
    by (rule save_students_plain)
  with e show "edit_student fstr fs roll_in name_in marks_in =
                (write_file
                   (writerow FIELDNAMES @ rows_text (pre @ edited s new_name new_marks # post)) fs,
                 [''Editing '' @ str_field s ''name'' @ '' (Roll '' @ str_field s ''roll'' @ '')'',
                  ''Student updated and saved.''],
                 None)"
    by simp
  from p assms(9) have "\<not> list_ex wrong_fields kept" by (auto simp: list_ex_iff)
  then have "save_students kept fs = (write_file (writerow FIELDNAMES @ rows_text kept) fs, None)"
    by (rule save_students_plain)
  with d show "delete_student fs roll_in confirm_in =
                  (write_file (writerow FIELDNAMES @ rows_text kept) fs,
                   [''Student deleted and changes saved.''], None)"
    by simp
qed

lemma edited_dict_of: "edited (dict_of s) n m = dict_of (s\<lparr>name := n, marks := m\<rparr>)"
  by (simp add: edited_def setitem_def dict_of_def)

lemma nine_sel [simp]: "roll nine = ''9''" "name nine = ''Lee''" "marks nine = ''65''"
  by (simp_all add: nine_def)

lemma save_text:
  "(write_file (writerow FIELDNAMES @ rows_text (map dict_of xs)) \<lparr>content = c, writes = 0\<rparr>)
     = \<lparr>content = Some (csv_text xs), writes = 1\<rparr>"
  by (simp add: write_file_def csv_text_def rows_text_dict_of)

theorem edit_first_delete_all_witness:
  "load_students \<lparr>content = Some (csv_text [nine, asha, bo]), writes = 0\<rparr> =
     (\<lparr>content = Some (csv_text [nine, asha, bo]), writes = 0\<rparr>,
      Inr ([dict_of nine] @ dict_of asha # [dict_of bo]))
   \<and> list_all complete ([dict_of nine] @ dict_of asha # [dict_of bo])
   \<and> strip (str_field (dict_of nine) ''roll'') \<noteq> strip ''1001''
   \<and> strip (str_field (dict_of asha) ''roll'') = strip ''1001''
   \<and> strip (str_field (dict_of bo) ''roll'') = strip ''1001''
   \<and> strip ''1001'' \<noteq> [] \<and> lower (strip ''y'') = ''y''
   \<and> \<not> list_ex wrong_fields ([dict_of nine] @ dict_of asha # [dict_of bo])
   \<and> edit_student no_repr \<lparr>content = Some (csv_text [nine, asha, bo]), writes = 0\<rparr>
        ''1001'' ''Zed'' [] =
       (\<lparr>content = Some (csv_text [nine, asha\<lparr>name := ''Zed''\<rparr>, bo]), writes = 1\<rparr>,
        [''Editing Asha (Roll 1001)'', ''Student updated and saved.''], None)
   \<and> delete_student \<lparr>content = Some (csv_text [nine, asha, bo]), writes = 0\<rparr> ''1001'' ''y'' =
       (\<lparr>content = Some (csv_text [nine]), writes = 1\<rparr>,
        [''Student deleted and changes saved.''], None)"
proof -
  let ?fs = "\<lparr>content = Some (csv_text [nine, asha, bo]), writes = 0\<rparr>"
  have y: "lower (strip ''y'') = ''y''" and n: "strip ''9'' = ''9''" and ly: "lower ''y'' = ''y''"
    by code_simp+
  have "load_students ?fs = (?fs, Inr (map dict_of [nine, asha, bo]))"
    by (rule load_saved) (simp add: fits_def field_limit_def)
  then have l: "load_students ?fs = (?fs, Inr ([dict_of nine] @ dict_of asha # [dict_of bo]))"
    by simp
  have c: "list_all complete ([dict_of nine] @ dict_of asha # [dict_of bo])" by simp
  have w: "\<not> list_ex wrong_fields ([dict_of nine] @ dict_of asha # [dict_of bo])" by simp
  have m: "(if strip [] = [] then Some (str_field (dict_of asha) ''marks'')
            else marks_string no_repr (strip [])) = Some ''70''"
    by simp
  have z: "''Zed'' = (if strip ''Zed'' = [] then str_field (dict_of asha) ''name'' else strip ''Zed'')"
    by simp
  have k: "[dict_of nine] =
           [dict_of nine] @ filter (\<lambda>x. strip (str_field x ''roll'') \<noteq> strip ''1001'') [dict_of bo]"
    by simp
  have p: "\<forall>x \<in> set [dict_of nine]. strip (str_field x ''roll'') \<noteq> strip ''1001''"
    by (simp add: n)
  have q: "strip (str_field (dict_of asha) ''roll'') = strip ''1001''" "strip ''1001'' \<noteq> []"
    by simp_all
  have e1: "rows_text ([dict_of nine] @ edited (dict_of asha) ''Zed'' ''70'' # [dict_of bo]) =
            rows_text (map dict_of [nine, asha\<lparr>name := ''Zed''\<rparr>, bo])"
    by (simp add: edited_dict_of) (simp add: asha_def)
  have e2: "rows_text [dict_of nine] = rows_text (map dict_of [nine])" by simp
  from edit_first_delete_all [OF l c p q m z y k] w
  have "edit_student no_repr ?fs ''1001'' ''Zed'' [] =
          (write_file
             (writerow FIELDNAMES
              @ rows_text ([dict_of nine] @ edited (dict_of asha) ''Zed'' ''70'' # [dict_of bo])) ?fs,
           [''Editing '' @ str_field (dict_of asha) ''name''
            @ '' (Roll '' @ str_field (dict_of asha) ''roll'' @ '')'',
            ''Student updated and saved.''],
           None)
      \<and> delete_student ?fs ''1001'' ''y'' =
          (write_file (writerow FIELDNAMES @ rows_text [dict_of nine]) ?fs,
           [''Student deleted and changes saved.''], None)"
    by blast
  then have r:
    "edit_student no_repr ?fs ''1001'' ''Zed'' [] =
       (\<lparr>content = Some (csv_text [nine, asha\<lparr>name := ''Zed''\<rparr>, bo]), writes = 1\<rparr>,
        [''Editing Asha (Roll 1001)'', ''Student updated and saved.''], None)"
    "delete_student ?fs ''1001'' ''y'' =
       (\<lparr>content = Some (csv_text [nine]), writes = 1\<rparr>,
        [''Student deleted and changes saved.''], None)"
    unfolding e1 e2 save_text by simp_all
  show ?thesis
    using l c w r by (simp add: ly n)
qed

lemma int_roll_complete: "complete s \<Longrightarrow> int_roll s = py_int (str_field s ''roll'')"
  by (simp add: int_roll_def complete_getitem)

lemma list_order_int:
  assumes "list_all complete students"
    and "\<forall>s \<in> set students. py_int (str_field s ''roll'') \<noteq> None"
  shows "list_order students = Inr (sort_key (\<lambda>s. the (int_roll s)) students)"
  using assms by (auto simp: list_order_def list_all_iff int_roll_complete)

lemma list_order_str:
  assumes "list_all complete students"
    and "\<exists>s \<in> set students. py_int (str_field s ''roll'') = None"
  shows "list_order students = Inr (sort_key (\<lambda>s. str_field s ''roll'') students)"
proof -
  from assms have "\<not> list_all (\<lambda>s. int_roll s \<noteq> None) students"
    by (auto simp: list_all_iff int_roll_complete)
  moreover from assms(1) have "\<not> list_ex (\<lambda>s. getitem s ''roll'' = Inl KeyError) students"
    and "\<not> list_ex (\<lambda>s. getitem s ''roll'' = Inr None) students"
    by (auto simp: list_all_iff list_ex_iff complete_getitem)
  ultimately show ?thesis by (simp add: list_order_def)
qed

lemma list_students_sorted:
  assumes "load_students fs = (fs, Inr students)" and "students \<noteq> []"
    and "list_order students = Inr ys" and "list_all complete ys"
  shows "list_students show_header fs =
           (fs,
            (if show_header then table_header else []) @ map table_line ys
            @ [LF # ''Total students: '' @ str_int (int (length students)) @ [LF]],
            None)"
  using assms by (simp add: list_students_def print_rows_complete)

text \<open>
  C6, as stated, fails on stores with records that lack a field.  In a row of one field
  the roll converts to an integer, and yet nothing is listed: the name and the marks
  are \<^verbatim>\<open>None\<close>, and formatting the row raises after the header.  Under a header
  without a roll column the second sort raises before anything is printed.
\<close>

theorem list_students_counterexample:
  "py_int ''7'' = Some 7
   \<and> list_students True one_field = (one_field, table_header, Some TypeError)
   \<and> list_students True no_roll = (no_roll, [], Some KeyError)"
proof -
  have p: "py_int ''7'' = Some 7" by code_simp
  have 1: "list_students True one_field = (one_field, table_header, Some TypeError)"
    by (simp add: list_students_def load_one_field list_order_def int_roll_def getitem_def
        al_one_def p student_row_def)
  have 2: "list_students True no_roll = (no_roll, [], Some KeyError)"
    by (simp add: list_students_def load_no_roll list_order_def int_roll_def getitem_def)
  from p 1 2 show ?thesis by simp
qed

text \<open>
  C6, amended.  On an empty store List prints the no-records line and nothing else.  On
  a store whose records each have a roll, a name and marks it prints the header, when
  asked to, one line per record and the total, and the records appear in an order that
  is a rearrangement of the store: ascending by \<^verbatim>\<open>int(roll)\<close> when every roll
  converts to an integer, and ascending by the roll as a string, for the whole list, as
  soon as one roll does not convert.  Records with equal keys keep their store order.
\<close>

theorem list_students_spec:
  assumes "load_students fs = (fs, Inr students)"
  shows "(students = [] \<longrightarrow>
            list_students show_header fs = (fs, [''No student records yet.''], None))
       \<and> (students \<noteq> [] \<and> list_all complete students \<longrightarrow>
            (\<exists>ys. list_students show_header fs =
                    (fs,
                     (if show_header then table_header else []) @ map table_line ys
                     @ [LF # ''Total students: '' @ str_int (int (length students)) @ [LF]],
                     None)
                 \<and> mset ys = mset students
                 \<and> ((\<forall>s \<in> set students. py_int (str_field s ''roll'') \<noteq> None) \<longrightarrow>
                      sorted (map (\<lambda>s. the (py_int (str_field s ''roll''))) ys)
                      \<and> (\<forall>k. filter (\<lambda>s. the (py_int (str_field s ''roll'')) = k) ys
                             = filter (\<lambda>s. the (py_int (str_field s ''roll'')) = k) students))
                 \<and> ((\<exists>s \<in> set students. py_int (str_field s ''roll'') = None) \<longrightarrow>
                      sorted (map (\<lambda>s. str_field s ''roll'') ys)
                      \<and> (\<forall>k. filter (\<lambda>s. str_field s ''roll'' = k) ys
                             = filter (\<lambda>s. str_field s ''roll'' = k) students))))"
proof (intro conjI impI)
  assume "students = []"
  with assms show "list_students show_header fs = (fs, [''No student records yet.''], None)"
    by (simp add: list_students_def)
next
  assume a: "students \<noteq> [] \<and> list_all complete students"
  then have ne: "students \<noteq> []" and c: "list_all complete students" by simp_all
  let ?P = "\<lambda>ys. list_students show_header fs =
                    (fs,
                     (if show_header then table_header else []) @ map table_line ys
                     @ [LF # ''Total students: '' @ str_int (int (length students)) @ [LF]],
                     None)
                 \<and> mset ys = mset students
                 \<and> ((\<forall>s \<in> set students. py_int (str_field s ''roll'') \<noteq> None) \<longrightarrow>
                      sorted (map (\<lambda>s. the (py_int (str_field s ''roll''))) ys)
                      \<and> (\<forall>k. filter (\<lambda>s. the (py_int (str_field s ''roll'')) = k) ys
                             = filter (\<lambda>s. the (py_int (str_field s ''roll'')) = k) students))
                 \<and> ((\<exists>s \<in> set students. py_int (str_field s ''roll'') = None) \<longrightarrow>
                      sorted (map (\<lambda>s. str_field s ''roll'') ys)
                      \<and> (\<forall>k. filter (\<lambda>s. str_field s ''roll'' = k) ys
                             = filter (\<lambda>s. str_field s ''roll'' = k) students))"
  show "\<exists>ys. ?P ys"
  proof (cases "\<forall>s \<in> set students. py_int (str_field s ''roll'') \<noteq> None")
    case True
    let ?ys = "sort_key (\<lambda>s. the (int_roll s)) students"
    have o: "list_order students = Inr ?ys" using c True by (rule list_order_int)
    have cy: "list_all complete ?ys" using c by (simp add: list_all_iff)
    have i: "the (int_roll s) = the (py_int (str_field s ''roll''))" if "s \<in> set students" for s
      using that c by (simp add: list_all_iff int_roll_complete)
    have "sorted (map (\<lambda>s. the (int_roll s)) ?ys)" by (rule sorted_sort_key)
    moreover have "map (\<lambda>s. the (int_roll s)) ?ys = map (\<lambda>s. the (py_int (str_field s ''roll''))) ?ys"
      by (rule map_cong) (simp_all add: i)
    ultimately have s: "sorted (map (\<lambda>s. the (py_int (str_field s ''roll''))) ?ys)" by simp
    have f: "filter (\<lambda>s. the (py_int (str_field s ''roll'')) = k) ?ys
             = filter (\<lambda>s. the (py_int (str_field s ''roll'')) = k) students" for k
    proof -
      have "filter (\<lambda>s. the (py_int (str_field s ''roll'')) = k) ?ys
            = filter (\<lambda>s. the (int_roll s) = k) ?ys"
        by (rule filter_cong) (simp_all add: i)
      also have "\<dots> = filter (\<lambda>s. the (int_roll s) = k) students"
        by (simp add: sort_key_stable)
      also have "\<dots> = filter (\<lambda>s. the (py_int (str_field s ''roll'')) = k) students"
        by (rule filter_cong) (simp_all add: i)
      finally show ?thesis .
    qed
    have "?P ?ys"
    proof (intro conjI impI allI)
      show "list_students show_header fs =
              (fs,
               (if show_header then table_header else []) @ map table_line ?ys
               @ [LF # ''Total students: '' @ str_int (int (length students)) @ [LF]],
               None)"
        by (rule list_students_sorted [OF assms ne o cy])
      show "mset ?ys = mset students" by simp
      show "sorted (map (\<lambda>s. the (py_int (str_field s ''roll''))) ?ys)" by (rule s)
      show "filter (\<lambda>s. the (py_int (str_field s ''roll'')) = k) ?ys
             = filter (\<lambda>s. the (py_int (str_field s ''roll'')) = k) students" for k
        by (rule f)
    next
      assume "\<exists>s \<in> set students. py_int (str_field s ''roll'') = None"
      with True show "sorted (map (\<lambda>s. str_field s ''roll'') ?ys)" by blast
    next
      fix k
      assume "\<exists>s \<in> set students. py_int (str_field s ''roll'') = None"
      with True show "filter (\<lambda>s. str_field s ''roll'' = k) ?ys
             = filter (\<lambda>s. str_field s ''roll'' = k) students" by blast
    qed
    then show ?thesis by (rule exI [of ?P ?ys])
  next
    case False
    then have x: "\<exists>s \<in> set students. py_int (str_field s ''roll'') = None" by simp
    let ?ys = "sort_key (\<lambda>s. str_field s ''roll'') students"
    have o: "list_order students = Inr ?ys" using c x by (rule list_order_str)
    have cy: "list_all complete ?ys" using c by (simp add: list_all_iff)
    have s: "sorted (map (\<lambda>s. str_field s ''roll'') ?ys)" by (rule sorted_sort_key)
    have f: "filter (\<lambda>s. str_field s ''roll'' = k) ?ys
             = filter (\<lambda>s. str_field s ''roll'' = k) students" for k
      by (simp add: sort_key_stable)
    have "?P ?ys"
    proof (intro conjI impI allI)
      show "list_students show_header fs =
              (fs,
               (if show_header then table_header else []) @ map table_line ?ys
               @ [LF # ''Total students: '' @ str_int (int (length students)) @ [LF]],
               None)"
        by (rule list_students_sorted [OF assms ne o cy])
      show "mset ?ys = mset students" by simp
      show "sorted (map (\<lambda>s. str_field s ''roll'') ?ys)" by (rule s)
      show "filter (\<lambda>s. str_field s ''roll'' = k) ?ys
             = filter (\<lambda>s. str_field s ''roll'' = k) students" for k
        by (rule f)
    next
      assume "\<forall>s \<in> set students. py_int (str_field s ''roll'') \<noteq> None"
      with x show "sorted (map (\<lambda>s. the (py_int (str_field s ''roll''))) ?ys)" by blast
    next
      fix k
      assume "\<forall>s \<in> set students. py_int (str_field s ''roll'') \<noteq> None"
      with x show "filter (\<lambda>s. the (py_int (str_field s ''roll'')) = k) ?ys
             = filter (\<lambda>s. the (py_int (str_field s ''roll'')) = k) students" by blast
    qed
    then show ?thesis by (rule exI [of ?P ?ys])
  qed
qed

lemma list_order_examples:
  "list_order (map dict_of [ten, nine]) = Inr (map dict_of [nine, ten])"
  "list_order (map dict_of [nine, tenx, ten]) = Inr (map dict_of [ten, tenx, nine])"
  by code_simp+

theorem list_students_spec_witness:
  "load_students \<lparr>content = Some (csv_text []), writes = 0\<rparr> =
     (\<lparr>content = Some (csv_text []), writes = 0\<rparr>, Inr [])
   \<and> list_students True \<lparr>content = Some (csv_text []), writes = 0\<rparr> =
       (\<lparr>content = Some (csv_text []), writes = 0\<rparr>, [''No student records yet.''], None)
   \<and> load_students \<lparr>content = Some (csv_text [ten, nine]), writes = 0\<rparr> =
       (\<lparr>content = Some (csv_text [ten, nine]), writes = 0\<rparr>, Inr [dict_of ten, dict_of nine])
   \<and> [dict_of ten, dict_of nine] \<noteq> [] \<and> list_all complete [dict_of ten, dict_of nine]
   \<and> py_int (str_field (dict_of ten) ''roll'') = Some 10
   \<and> py_int (str_field (dict_of nine) ''roll'') = Some 9
   \<and> (\<exists>ys. list_students True \<lparr>content = Some (csv_text [ten, nine]), writes = 0\<rparr> =
             (\<lparr>content = Some (csv_text [ten, nine]), writes = 0\<rparr>,
              table_header @ map table_line ys
              @ [LF # ''Total students: ''
                 @ str_int (int (length [dict_of ten, dict_of nine])) @ [LF]],
              None)
           \<and> mset ys = mset [dict_of ten, dict_of nine]
           \<and> sorted (map (\<lambda>s. the (py_int (str_field s ''roll''))) ys))
   \<and> load_students \<lparr>content = Some (csv_text [nine, tenx]), writes = 0\<rparr> =
       (\<lparr>content = Some (csv_text [nine, tenx]), writes = 0\<rparr>, Inr [dict_of nine, dict_of tenx])
   \<and> list_all complete [dict_of nine, dict_of tenx]
   \<and> (\<exists>s \<in> set [dict_of nine, dict_of tenx]. py_int (str_field s ''roll'') = None)
   \<and> (\<exists>ys. list_students True \<lparr>content = Some (csv_text [nine, tenx]), writes = 0\<rparr> =
             (\<lparr>content = Some (csv_text [nine, tenx]), writes = 0\<rparr>,
              table_header @ map table_line ys
              @ [LF # ''Total students: ''
                 @ str_int (int (length [dict_of nine, dict_of tenx])) @ [LF]],
              None)
           \<and> mset ys = mset [dict_of nine, dict_of tenx]
           \<and> sorted (map (\<lambda>s. str_field s ''roll'') ys))"
proof -
  have l0: "load_students \<lparr>content = Some (csv_text []), writes = 0\<rparr> =
     (\<lparr>content = Some (csv_text []), writes = 0\<rparr>, Inr [])"
    using load_saved [of "[]" 0] by simp
  have l1: "load_students \<lparr>content = Some (csv_text [ten, nine]), writes = 0\<rparr> =
       (\<lparr>content = Some (csv_text [ten, nine]), writes = 0\<rparr>, Inr [dict_of ten, dict_of nine])"
    using load_saved [of "[ten, nine]" 0] by (simp add: fits_def ten_def field_limit_def)
  have l2: "load_students \<lparr>content = Some (csv_text [nine, tenx]), writes = 0\<rparr> =
       (\<lparr>content = Some (csv_text [nine, tenx]), writes = 0\<rparr>, Inr [dict_of nine, dict_of tenx])"
    using load_saved [of "[nine, tenx]" 0] by (simp add: fits_def tenx_def field_limit_def)
  have p: "py_int (str_field (dict_of ten) ''roll'') = Some 10"
    "py_int (str_field (dict_of nine) ''roll'') = Some 9"
    "py_int (str_field (dict_of tenx) ''roll'') = None"
    unfolding str_field_dict_of ten_def nine_def tenx_def by code_simp+
  have n: "\<forall>s \<in> set [dict_of ten, dict_of nine]. py_int (str_field s ''roll'') \<noteq> None"
    and x: "\<exists>s \<in> set [dict_of nine, dict_of tenx]. py_int (str_field s ''roll'') = None"
    using p by simp_all
  have c1: "[dict_of ten, dict_of nine] \<noteq> [] \<and> list_all complete [dict_of ten, dict_of nine]"
    and c2: "[dict_of nine, dict_of tenx] \<noteq> [] \<and> list_all complete [dict_of nine, dict_of tenx]"
    by simp_all
  from list_students_spec [OF l0, of True]
  have r0: "list_students True \<lparr>content = Some (csv_text []), writes = 0\<rparr> =
       (\<lparr>content = Some (csv_text []), writes = 0\<rparr>, [''No student records yet.''], None)"
    by simp
  from list_students_spec [OF l1, of True] n c1
  have r1: "\<exists>ys. list_students True \<lparr>content = Some (csv_text [ten, nine]), writes = 0\<rparr> =
             (\<lparr>content = Some (csv_text [ten, nine]), writes = 0\<rparr>,
              (if True then table_header else []) @ map table_line ys
              @ [LF # ''Total students: ''
                 @ str_int (int (length [dict_of ten, dict_of nine])) @ [LF]],
              None)
           \<and> mset ys = mset [dict_of ten, dict_of nine]
           \<and> sorted (map (\<lambda>s. the (py_int (str_field s ''roll''))) ys)"
    by blast
  from list_students_spec [OF l2, of True] x c2
  have r2: "\<exists>ys. list_students True \<lparr>content = Some (csv_text [nine, tenx]), writes = 0\<rparr> =
             (\<lparr>content = Some (csv_text [nine, tenx]), writes = 0\<rparr>,
              (if True then table_header else []) @ map table_line ys
              @ [LF # ''Total students: ''
                 @ str_int (int (length [dict_of nine, dict_of tenx])) @ [LF]],
              None)
           \<and> mset ys = mset [dict_of nine, dict_of tenx]
           \<and> sorted (map (\<lambda>s. str_field s ''roll'') ys)"
    by blast
  from r1 have r1': "\<exists>ys. list_students True \<lparr>content = Some (csv_text [ten, nine]), writes = 0\<rparr> =
             (\<lparr>content = Some (csv_text [ten, nine]), writes = 0\<rparr>,
              table_header @ map table_line ys
              @ [LF # ''Total students: ''
                 @ str_int (int (length [dict_of ten, dict_of nine])) @ [LF]],
              None)
           \<and> mset ys = mset [dict_of ten, dict_of nine]
           \<and> sorted (map (\<lambda>s. the (py_int (str_field s ''roll''))) ys)"
    by (simp only: if_True)
  from r2 have r2': "\<exists>ys. list_students True \<lparr>content = Some (csv_text [nine, tenx]), writes = 0\<rparr> =
             (\<lparr>content = Some (csv_text [nine, tenx]), writes = 0\<rparr>,
              table_header @ map table_line ys
              @ [LF # ''Total students: ''
                 @ str_int (int (length [dict_of nine, dict_of tenx])) @ [LF]],
              None)
           \<and> mset ys = mset [dict_of nine, dict_of tenx]
           \<and> sorted (map (\<lambda>s. str_field s ''roll'') ys)"
    by (simp only: if_True)
  from l0 r0 l1 c1 p(1,2) r1' l2 c2 x r2' show ?thesis by blast
qed


end
